theory Spec2Isabelle
  imports Complex_Main
begin

section \<open>Python values, strings and logging\<close>

text \<open>
  The program is a Python module (\<^verbatim>\<open>core.py\<close>) that runs inside a host application and
  talks to it through \<^verbatim>\<open>maya.cmds\<close>.  Values returned by the host and values stored in
  the JSON document are modelled by \<open>pyval\<close>; finite floats are rationals.
\<close>

datatype pyval =
    PyNone
  | PyBool bool
  | PyInt int
  | PyFloat rat
  | PyStr string
  | PyList "pyval list"
  | PyTuple "pyval list"

text \<open>\<^verbatim>\<open>isinstance(v, (tuple, list))\<close> and \<^verbatim>\<open>isinstance(v, list)\<close>.\<close>

fun is_tuple_or_list :: "pyval \<Rightarrow> bool" where
  "is_tuple_or_list (PyList xs) = True"
| "is_tuple_or_list (PyTuple xs) = True"
| "is_tuple_or_list v = False"

fun is_list :: "pyval \<Rightarrow> bool" where
  "is_list (PyList xs) = True"
| "is_list v = False"

text \<open>Truth value of a Python object, as \<^verbatim>\<open>any(...)\<close> and \<^verbatim>\<open>if x:\<close> test it.\<close>

fun truthy :: "pyval \<Rightarrow> bool" where
  "truthy PyNone = False"
| "truthy (PyBool b) = b"
| "truthy (PyInt i) = (i \<noteq> 0)"
| "truthy (PyFloat r) = (r \<noteq> 0)"
| "truthy (PyStr s) = (s \<noteq> [])"
| "truthy (PyList xs) = (xs \<noteq> [])"
| "truthy (PyTuple xs) = (xs \<noteq> [])"

definition py_any :: "pyval list \<Rightarrow> bool" where
  "py_any xs = list_ex truthy xs"

datatype py_error = TypeError | IndexError | KeyError | RecursionError | OSError

datatype log_level = ERROR | INFO

type_synonym log_entry = "log_level \<times> string"

subsection \<open>String operations\<close>

text \<open>\<^verbatim>\<open>s.startswith(p)\<close>\<close>

fun startswith :: "string \<Rightarrow> string \<Rightarrow> bool" where
  "startswith s [] = True"
| "startswith [] (p # ps) = False"
| "startswith (c # s) (p # ps) = (c = p \<and> startswith s ps)"

text \<open>\<^verbatim>\<open>p in s\<close> for strings: \<open>p\<close> occurs in \<open>s\<close> as a contiguous substring.\<close>

fun contains :: "string \<Rightarrow> string \<Rightarrow> bool" where
  "contains [] p = (p = [])"
| "contains (c # s) p = (startswith (c # s) p \<or> contains s p)"

text \<open>
  \<^verbatim>\<open>s.replace(old, new)\<close>: every non-overlapping occurrence of \<open>old\<close>, scanning from
  the left, is replaced.  With an empty \<open>old\<close> Python inserts \<open>new\<close> before every
  character and at the end.
\<close>

function replace :: "string \<Rightarrow> string \<Rightarrow> string \<Rightarrow> string" where
  "replace s old new =
     (if old = [] then new @ concat (map (\<lambda>c. c # new) s)
      else if s = [] then []
      else if startswith s old then new @ replace (drop (length old) s) old new
      else hd s # replace (tl s) old new)"
  by pat_completeness auto
termination
  by (relation "measure (\<lambda>(s, old, new). length s)") auto

declare replace.simps [simp del]

text \<open>\<^verbatim>\<open>s.split(".")[0]\<close>: the part of \<open>s\<close> before its first dot.\<close>

definition split_dot_0 :: "string \<Rightarrow> string" where
  "split_dot_0 s = takeWhile (\<lambda>c. c \<noteq> CHR ''.'') s"

text \<open>\<^verbatim>\<open>"{}.{}".format(a, b)\<close>\<close>

definition format_dot :: "string \<Rightarrow> string \<Rightarrow> string" where
  "format_dot a b = a @ ''.'' @ b"

definition backslash :: char where
  "backslash = CHR 0x5C"

definition newline :: char where
  "newline = CHR 0x0A"

section \<open>validate_file_path\<close>

text \<open>
  \<^verbatim>\<open>os.path.exists\<close> is the only contact with the file system; it is the parameter
  \<open>path_exists\<close>.  The function returns the path or falls off its end (\<open>None\<close>), and
  the second component is what it logged.
\<close>

definition validate_file_path :: "(string \<Rightarrow> bool) \<Rightarrow> string \<Rightarrow> string option \<times> log_entry list" where
  "validate_file_path path_exists file_path =
     (let return_path = file_path;
          return_path =
            (if contains return_path [backslash]
             then replace (replace return_path [backslash] ''/'') ''//'' ''/''
             else return_path)
      in if path_exists return_path then (Some return_path, [])
         else (None, [(ERROR, ''File path not found. '' @ [newline] @ ''Used path: '' @ return_path)]))"

text \<open>
  The normalisation as the specification words it: backslashes replaced by forward
  slashes, then doubled slashes collapsed, for every path.
\<close>

definition spec_normalized :: "string \<Rightarrow> string" where
  "spec_normalized p = replace (replace p [backslash] ''/'') ''//'' ''/''"

text \<open>The path that the function tests and returns: normalised only when the argument
  has a backslash.\<close>

definition tested_path :: "string \<Rightarrow> string" where
  "tested_path p = (if backslash \<in> set p then spec_normalized p else p)"

section \<open>flatten_list\<close>

text \<open>
  The loop of \<^verbatim>\<open>flatten_list\<close> with its accumulator \<^verbatim>\<open>new_list\<close>: an element that is
  a tuple or a list is spliced in (\<^verbatim>\<open>extend\<close>), any other element is appended.
\<close>

fun seq_items :: "pyval \<Rightarrow> pyval list" where
  "seq_items (PyList xs) = xs"
| "seq_items (PyTuple xs) = xs"
| "seq_items v = []"

fun flatten_loop :: "pyval list \<Rightarrow> pyval list \<Rightarrow> pyval list" where
  "flatten_loop new_list [] = new_list"
| "flatten_loop new_list (each # matrix) =
     (if is_tuple_or_list each then flatten_loop (new_list @ seq_items each) matrix
      else flatten_loop (new_list @ [each]) matrix)"

definition flatten_list :: "pyval list \<Rightarrow> pyval list" where
  "flatten_list matrix = flatten_loop [] matrix"

text \<open>The example input of the function's own docstring:
  \<^verbatim>\<open>[[1.0,2.3], [4, (), "string_val"]]\<close>.\<close>

definition docstring_example :: "pyval list" where
  "docstring_example =
     [PyList [PyFloat 1, PyFloat (23 / 10)],
      PyList [PyInt 4, PyTuple [], PyStr ''string_val'']]"

section \<open>The host application\<close>

text \<open>
  Every \<^verbatim>\<open>cmds\<close> call is a question to, or a command for, the host's scene.  The
  questions the module asks are the fields of \<open>host\<close>: one value of this record is
  one state of the scene.  A query that finds nothing returns Python's \<^verbatim>\<open>None\<close>
  (\<open>None\<close> here) where \<^verbatim>\<open>maya.cmds\<close> does so (\<^verbatim>\<open>listConnections\<close>, \<^verbatim>\<open>listRelatives\<close>,
  \<^verbatim>\<open>listAttr\<close>, \<^verbatim>\<open>attributeQuery\<close>) and an empty list where it does so (\<^verbatim>\<open>ls\<close>).
  The host's answers are parameters: nothing is assumed about them except where a
  theorem says so, and the host itself is taken not to raise.
\<close>

record lc_flags =
  lc_source :: bool
  lc_destination :: bool
  lc_connections :: bool
  lc_plugs :: bool
  lc_shapes :: bool
  lc_type :: "string option"

text \<open>The defaults of \<^verbatim>\<open>cmds.listConnections\<close>.\<close>

definition lc :: lc_flags where
  "lc = \<lparr>lc_source = True, lc_destination = True, lc_connections = False,
         lc_plugs = False, lc_shapes = False, lc_type = None\<rparr>"

record host =
  ls_selection :: "string list"
  ls_showType :: "string \<Rightarrow> string list"
  ls_defaultNodes :: "string list"
  objExists :: "string \<Rightarrow> bool"
  listRelatives_shapes :: "string \<Rightarrow> string list option"
  listRelatives_parent :: "string \<Rightarrow> string list option"
  listConnections :: "lc_flags \<Rightarrow> string \<Rightarrow> string list option"
  hyperShade_objects :: "string \<Rightarrow> string list"
  listAttr :: "string \<Rightarrow> string list option"
  attributeQuery_exists :: "string \<Rightarrow> string \<Rightarrow> bool"
  attributeQuery_listChildren :: "string \<Rightarrow> string \<Rightarrow> string list option"
  getAttr_type :: "string \<Rightarrow> string"
  getAttr :: "string \<Rightarrow> pyval"

text \<open>
  \<open>hyperShade_objects h m\<close> is the selection that \<^verbatim>\<open>cmds.ls(selection=True)\<close> reports
  right after \<^verbatim>\<open>cmds.hyperShade(objects=m)\<close>; the module reads the selection once more
  only there, and \<^verbatim>\<open>cmds.select(deselect=True)\<close> follows at once, so the selection is
  not carried as state.  \<open>attributeQuery_exists h attr node\<close> and
  \<open>attributeQuery_listChildren h attr node\<close> take the attribute first, as the calls do.
\<close>

subsection \<open>Subscripts and truth of query results\<close>

text \<open>\<^verbatim>\<open>r[i]\<close> on a query result: \<^verbatim>\<open>None\<close> is not subscriptable, a short list has no
  such index.\<close>

definition subscript :: "'a list option \<Rightarrow> nat \<Rightarrow> py_error + 'a" where
  "subscript r i =
     (case r of None \<Rightarrow> Inl TypeError
      | Some xs \<Rightarrow> if i < length xs then Inr (xs ! i) else Inl IndexError)"

text \<open>\<^verbatim>\<open>xs[-1]\<close>\<close>

definition subscript_last :: "'a list \<Rightarrow> py_error + 'a" where
  "subscript_last xs = (if xs = [] then Inl IndexError else Inr (last xs))"

text \<open>\<^verbatim>\<open>if r:\<close> on a query result: \<^verbatim>\<open>None\<close> and the empty list are false.\<close>

definition nonempty :: "'a list option \<Rightarrow> bool" where
  "nonempty r = (case r of None \<Rightarrow> False | Some xs \<Rightarrow> xs \<noteq> [])"

text \<open>\<^verbatim>\<open>cmds.ls(n, showType=True)[-1]\<close>: the type of node \<open>n\<close>.\<close>

definition showType_last :: "host \<Rightarrow> string \<Rightarrow> py_error + string" where
  "showType_last h n = subscript_last (ls_showType h n)"

section \<open>confirm_attr_order\<close>

text \<open>The query \<^verbatim>\<open>cmds.listConnections(a, plugs=True, destination=False)\<close>: the plugs
  that feed \<open>a\<close>.\<close>

definition source_plugs :: "host \<Rightarrow> string \<Rightarrow> string list option" where
  "source_plugs h a = listConnections h (lc\<lparr>lc_plugs := True, lc_destination := False\<rparr>) a"

definition confirm_attr_order :: "host \<Rightarrow> string list option \<Rightarrow> py_error + string list" where
  "confirm_attr_order h connected_attributes =
     (case subscript connected_attributes 0 of Inl e \<Rightarrow> Inl e | Inr attr_1 \<Rightarrow>
      case subscript connected_attributes 1 of Inl e \<Rightarrow> Inl e | Inr attr_2 \<Rightarrow>
        if nonempty (source_plugs h attr_1) then
          (case source_plugs h attr_1 of
             None \<Rightarrow> Inl TypeError
           | Some srcs \<Rightarrow>
               if attr_2 \<in> set srcs then Inr [attr_2, attr_1] else Inr [attr_1, attr_2])
        else Inr [attr_1, attr_2])"

text \<open>\<open>feeds h s d\<close>: the host lists plug \<open>s\<close> among the sources that feed plug \<open>d\<close>.\<close>

definition feeds :: "host \<Rightarrow> string \<Rightarrow> string \<Rightarrow> bool" where
  "feeds h s d = (case source_plugs h d of None \<Rightarrow> False | Some srcs \<Rightarrow> s \<in> set srcs)"

section \<open>get_src_nodes\<close>

text \<open>
  The first loop collects the sources whose type is \<^verbatim>\<open>"mesh"\<close>; the second removes one
  occurrence of each from the list of sources.
\<close>

fun collect_shapes :: "host \<Rightarrow> string list \<Rightarrow> string list \<Rightarrow> py_error + string list" where
  "collect_shapes h remove_shapes [] = Inr remove_shapes"
| "collect_shapes h remove_shapes (each # rest) =
     (case showType_last h each of Inl e \<Rightarrow> Inl e
      | Inr t \<Rightarrow>
          if t = ''mesh'' then collect_shapes h (remove_shapes @ [each]) rest
          else collect_shapes h remove_shapes rest)"

fun drop_shapes :: "string list \<Rightarrow> string list \<Rightarrow> string list" where
  "drop_shapes src_nodes [] = src_nodes"
| "drop_shapes src_nodes (each # rest) =
     (if each \<in> set src_nodes then drop_shapes (remove1 each src_nodes) rest
      else drop_shapes src_nodes rest)"

text \<open>
  The third loop appends to \<^verbatim>\<open>node_list\<close> in place.  \<^verbatim>\<open>node_list\<close> is a mutable list
  that outlives a raised exception, so each loop returns the list as it stands together
  with the exception, if any.
\<close>

fun append_new :: "host \<Rightarrow> string list \<Rightarrow> string list \<Rightarrow> string list \<times> py_error option" where
  "append_new h node_list [] = (node_list, None)"
| "append_new h node_list (each # rest) =
     (case showType_last h each of Inl e \<Rightarrow> (node_list, Some e)
      | Inr t \<Rightarrow>
          if t = ''mesh'' then append_new h node_list rest
          else if each \<notin> set node_list then append_new h (node_list @ [each]) rest
          else append_new h node_list rest)"

text \<open>
  \<^verbatim>\<open>get_src_nodes\<close> calls itself once for every source of every node it meets, visited
  or not, so on a cyclic graph it never stops by itself: Python ends it with
  \<^verbatim>\<open>RecursionError\<close> when the stack is full.  \<open>depth\<close> is the number of nested calls
  the interpreter still allows.
\<close>

fun get_src_nodes :: "nat \<Rightarrow> host \<Rightarrow> string \<Rightarrow> string list \<Rightarrow> string list \<times> py_error option"
  and visit_sources :: "nat \<Rightarrow> host \<Rightarrow> string list \<Rightarrow> string list \<Rightarrow> string list \<times> py_error option"
where
  "get_src_nodes 0 h node_name node_list = (node_list, Some RecursionError)"
| "get_src_nodes (Suc depth) h node_name node_list =
     (let src_nodes =
            listConnections h (lc\<lparr>lc_source := True, lc_destination := False, lc_shapes := True\<rparr>) node_name
      in case src_nodes of
           None \<Rightarrow> (node_list, None)
         | Some srcs \<Rightarrow>
             if srcs = [] then (node_list, None)
             else
               (case collect_shapes h [] srcs of
                  Inl e \<Rightarrow> (node_list, Some e)
                | Inr remove_shapes \<Rightarrow>
                    let srcs = drop_shapes srcs remove_shapes
                    in if srcs = [] then (node_list, None)
                       else
                         (case append_new h node_list srcs of
                            (node_list, Some e) \<Rightarrow> (node_list, Some e)
                          | (node_list, None) \<Rightarrow> visit_sources depth h srcs node_list)))"
| "visit_sources depth h [] node_list = (node_list, None)"
| "visit_sources depth h (each # rest) node_list =
     (case get_src_nodes depth h each node_list of
        (node_list, Some e) \<Rightarrow> (node_list, Some e)
      | (node_list, None) \<Rightarrow> visit_sources depth h rest node_list)"

text \<open>
  The default \<^verbatim>\<open>node_list=[]\<close> of the \<^verbatim>\<open>def\<close> is one list object, created once when
  the module is loaded and shared by every call that omits the argument.  Its contents
  are module state: \<open>default_list\<close> in, the updated contents out.
\<close>

definition get_src_nodes_omitted ::
    "nat \<Rightarrow> host \<Rightarrow> string \<Rightarrow> string list \<Rightarrow> (py_error + string list) \<times> string list" where
  "get_src_nodes_omitted depth h node_name default_list =
     (case get_src_nodes depth h node_name default_list of
        (node_list, Some e) \<Rightarrow> (Inl e, node_list)
      | (node_list, None) \<Rightarrow> (Inr node_list, node_list))"

section \<open>The exported document\<close>

text \<open>
  \<^verbatim>\<open>build_shader_dict\<close> fills a dictionary with the four literal keys
  \<^verbatim>\<open>"base_material"\<close>, \<^verbatim>\<open>"nodes"\<close>, \<^verbatim>\<open>"connections"\<close> and \<^verbatim>\<open>"meshes"\<close>; an entry of
  \<^verbatim>\<open>"nodes"\<close> has the keys \<^verbatim>\<open>"node_type"\<close> and \<^verbatim>\<open>"Attributes"\<close>.  Dictionaries with
  computed keys are association lists in insertion order.
\<close>

record base_material_rec =
  bm_name :: string
  bm_type :: string

record node_entry =
  node_type :: string
  Attributes :: "(string \<times> pyval) list"

record shader_network =
  base_material :: base_material_rec
  nodes :: "(string \<times> node_entry) list"
  connections :: "string list list"
  meshes :: "string list"

type_synonym document = "(string \<times> shader_network) list"

text \<open>\<^verbatim>\<open>d[k] = v\<close>: an existing key keeps its place, a new key goes last.\<close>

fun dict_set :: "'k \<Rightarrow> 'v \<Rightarrow> ('k \<times> 'v) list \<Rightarrow> ('k \<times> 'v) list" where
  "dict_set k v [] = [(k, v)]"
| "dict_set k v (p # ps) = (if fst p = k then (k, v) # ps else p # dict_set k v ps)"

text \<open>\<^verbatim>\<open>del d[k]\<close> on a dictionary that has the key.\<close>

fun dict_del :: "'k \<Rightarrow> ('k \<times> 'v) list \<Rightarrow> ('k \<times> 'v) list" where
  "dict_del k [] = []"
| "dict_del k (p # ps) = (if fst p = k then ps else p # dict_del k ps)"

definition dict_keys :: "('k \<times> 'v) list \<Rightarrow> 'k list" where
  "dict_keys d = map fst d"

section \<open>build_shader_dict\<close>

definition filter_list :: "string list" where
  "filter_list = [''float3'', ''float2'', ''double2'', ''double3'']"

text \<open>
  The loop over \<^verbatim>\<open>meshes_with_material\<close>.  Its \<^verbatim>\<open>elif\<close> asks for the parent of an
  element that is not in the list it is drawn from.
\<close>

fun meshes_loop :: "host \<Rightarrow> string list \<Rightarrow> string list \<Rightarrow> string list \<Rightarrow> py_error + string list" where
  "meshes_loop h meshes_with_material acc [] = Inr acc"
| "meshes_loop h meshes_with_material acc (each # rest) =
     (if each \<in> set meshes_with_material then meshes_loop h meshes_with_material (acc @ [each]) rest
      else
        (case subscript (listRelatives_parent h each) 0 of Inl e \<Rightarrow> Inl e
         | Inr parent \<Rightarrow>
             if parent \<in> set meshes_with_material
             then meshes_loop h meshes_with_material (acc @ [each]) rest
             else meshes_loop h meshes_with_material acc rest))"

text \<open>The body of the loop over the plugs of the shading group (\<^verbatim>\<open>for each in src\<close>),
  and the loop.\<close>

definition engine_body :: "host \<Rightarrow> string \<Rightarrow> string \<Rightarrow> shader_network \<Rightarrow> py_error + shader_network" where
  "engine_body h shading_engine each shader_dict =
     (if contains each ''dagSetMembers'' then Inr shader_dict
      else if split_dot_0 each = shading_engine then
        (case confirm_attr_order h
                (listConnections h (lc\<lparr>lc_connections := True, lc_plugs := True, lc_source := True\<rparr>) each) of
           Inl e \<Rightarrow> Inl e
         | Inr connection_data \<Rightarrow>
             Inr (shader_dict\<lparr>connections := connections shader_dict @ [connection_data]\<rparr>))
      else Inr shader_dict)"

fun engine_loop :: "host \<Rightarrow> string \<Rightarrow> string list \<Rightarrow> shader_network \<Rightarrow> py_error + shader_network" where
  "engine_loop h shading_engine [] shader_dict = Inr shader_dict"
| "engine_loop h shading_engine (each # rest) shader_dict =
     (case engine_body h shading_engine each shader_dict of
        Inl e \<Rightarrow> Inl e
      | Inr shader_dict \<Rightarrow> engine_loop h shading_engine rest shader_dict)"

text \<open>\<^verbatim>\<open>shader_dict["nodes"][each]["Attributes"][attr] = val\<close>\<close>

definition store_attribute :: "string \<Rightarrow> string \<Rightarrow> pyval \<Rightarrow> shader_network \<Rightarrow> py_error + shader_network" where
  "store_attribute each attr val shader_dict =
     (case map_of (nodes shader_dict) each of
        None \<Rightarrow> Inl KeyError
      | Some entry \<Rightarrow>
          Inr (shader_dict\<lparr>nodes :=
                 dict_set each (entry\<lparr>Attributes := dict_set attr val (Attributes entry)\<rparr>)
                   (nodes shader_dict)\<rparr>))"

text \<open>The query of an attribute's incoming connection, asked twice by the source.\<close>

definition incoming :: "host \<Rightarrow> string \<Rightarrow> string list option" where
  "incoming h full_attr =
     listConnections h
       (lc\<lparr>lc_connections := True, lc_plugs := True, lc_source := True, lc_destination := False\<rparr>)
       full_attr"

text \<open>The body of the loop over the attributes of one node; it carries the local
  \<^verbatim>\<open>skip_attributes\<close> and the dictionary.\<close>

definition attr_body ::
    "host \<Rightarrow> string \<Rightarrow> string \<Rightarrow> string list \<Rightarrow> shader_network
       \<Rightarrow> py_error + string list \<times> shader_network" where
  "attr_body h each attr skip_attributes shader_dict =
     (if attributeQuery_exists h attr each then
        (let full_attr = format_dot each attr in
         if nonempty (incoming h full_attr) then
           (case confirm_attr_order h (incoming h full_attr) of
              Inl e \<Rightarrow> Inl e
            | Inr connection_data \<Rightarrow>
                let child_attributes = attributeQuery_listChildren h attr each;
                    skip_attributes =
                      (if nonempty child_attributes
                       then skip_attributes @ (case child_attributes of None \<Rightarrow> [] | Some cs \<Rightarrow> cs)
                       else skip_attributes)
                in if connection_data \<notin> set (connections shader_dict)
                   then Inr (skip_attributes,
                             shader_dict\<lparr>connections := connections shader_dict @ [connection_data]\<rparr>)
                   else Inr (skip_attributes, shader_dict))
         else if attr \<notin> set skip_attributes then
           (if getAttr_type h full_attr \<notin> set filter_list then
              (let attr_val = getAttr h full_attr in
               if is_list attr_val then
                 (if \<not> py_any (seq_items (getAttr h full_attr))
                  then Inr (skip_attributes, shader_dict)
                  else
                    (case store_attribute each attr
                            (PyList (flatten_list (seq_items (getAttr h full_attr)))) shader_dict of
                       Inl e \<Rightarrow> Inl e
                     | Inr shader_dict \<Rightarrow> Inr (skip_attributes, shader_dict)))
               else
                 (case store_attribute each attr (getAttr h full_attr) shader_dict of
                    Inl e \<Rightarrow> Inl e
                  | Inr shader_dict \<Rightarrow> Inr (skip_attributes, shader_dict)))
            else Inr (skip_attributes, shader_dict))
         else Inr (skip_attributes, shader_dict))
      else Inr (skip_attributes, shader_dict))"

fun attr_loop ::
    "host \<Rightarrow> string \<Rightarrow> string list \<Rightarrow> string list \<Rightarrow> shader_network \<Rightarrow> py_error + shader_network" where
  "attr_loop h each [] skip_attributes shader_dict = Inr shader_dict"
| "attr_loop h each (attr # rest) skip_attributes shader_dict =
     (case attr_body h each attr skip_attributes shader_dict of
        Inl e \<Rightarrow> Inl e
      | Inr (skip_attributes, shader_dict) \<Rightarrow> attr_loop h each rest skip_attributes shader_dict)"

text \<open>
  What the body of \<^verbatim>\<open>for each in shader_graph_nodes\<close> does before it reads the
  attributes: \<open>None\<close> is \<^verbatim>\<open>continue\<close>, otherwise the dictionary to go on with.  A
  transform whose list of shapes has length 0 falls through without an entry in
  \<^verbatim>\<open>"nodes"\<close>; \<^verbatim>\<open>len\<close> of \<^verbatim>\<open>None\<close> raises.
\<close>

definition node_filter :: "host \<Rightarrow> string \<Rightarrow> shader_network \<Rightarrow> py_error + shader_network option" where
  "node_filter h each shader_dict =
     (case showType_last h each of Inl e \<Rightarrow> Inl e
      | Inr t \<Rightarrow>
          if t = ''transform'' then
            (case listRelatives_shapes h each of
               None \<Rightarrow> Inl TypeError
             | Some shapes \<Rightarrow> if length shapes \<noteq> 0 then Inr None else Inr (Some shader_dict))
          else if each \<in> set (ls_defaultNodes h) then Inr None
          else
            (case showType_last h each of Inl e \<Rightarrow> Inl e
             | Inr t \<Rightarrow>
                 Inr (Some (shader_dict\<lparr>nodes :=
                        dict_set each \<lparr>node_type = t, Attributes = []\<rparr> (nodes shader_dict)\<rparr>))))"

fun nodes_loop :: "host \<Rightarrow> string list \<Rightarrow> shader_network \<Rightarrow> py_error + shader_network" where
  "nodes_loop h [] shader_dict = Inr shader_dict"
| "nodes_loop h (each # rest) shader_dict =
     (case node_filter h each shader_dict of
        Inl e \<Rightarrow> Inl e
      | Inr None \<Rightarrow> nodes_loop h rest shader_dict
      | Inr (Some shader_dict) \<Rightarrow>
          (case listAttr h each of
             None \<Rightarrow> Inl TypeError
           | Some shader_attrs \<Rightarrow>
               (case attr_loop h each shader_attrs [] shader_dict of
                  Inl e \<Rightarrow> Inl e
                | Inr shader_dict \<Rightarrow> nodes_loop h rest shader_dict)))"

text \<open>
  \<^verbatim>\<open>build_shader_dict\<close>.  The listing \<^verbatim>\<open>dest\<close> of the source is asked for and never used;
  \<open>depth\<close> is the room that \<^verbatim>\<open>get_src_nodes\<close> has on the stack.
\<close>

definition build_shader_dict :: "nat \<Rightarrow> host \<Rightarrow> string \<Rightarrow> py_error + shader_network" where
  "build_shader_dict depth h shading_engine =
     (case subscript (listConnections h (lc\<lparr>lc_destination := False\<rparr>)
                        (format_dot shading_engine ''surfaceShader'')) 0 of
        Inl e \<Rightarrow> Inl e
      | Inr material_name \<Rightarrow>
     (case subscript (Some (ls_showType h material_name)) 1 of
        Inl e \<Rightarrow> Inl e
      | Inr material_type \<Rightarrow>
     (let shader_dict = \<lparr>base_material = \<lparr>bm_name = material_name, bm_type = material_type\<rparr>,
                         nodes = [], connections = [], meshes = []\<rparr>;
          meshes_with_material = hyperShade_objects h material_name
      in case meshes_loop h meshes_with_material (meshes shader_dict) meshes_with_material of
        Inl e \<Rightarrow> Inl e
      | Inr ms \<Rightarrow>
     (let shader_dict = shader_dict\<lparr>meshes := ms\<rparr>;
          src = listConnections h
                  (lc\<lparr>lc_connections := True, lc_plugs := True, lc_destination := False, lc_shapes := False\<rparr>)
                  shading_engine
      in case src of
        None \<Rightarrow> Inl TypeError
      | Some src \<Rightarrow>
     (case engine_loop h shading_engine src shader_dict of
        Inl e \<Rightarrow> Inl e
      | Inr shader_dict \<Rightarrow>
     (case get_src_nodes depth h shading_engine [] of
        (shader_graph_nodes, Some e) \<Rightarrow> Inl e
      | (shader_graph_nodes, None) \<Rightarrow> nodes_loop h shader_graph_nodes shader_dict))))))"

section \<open>export_shaders\<close>

text \<open>The filter of the \<^verbatim>\<open>"mesh"\<close> branch: the shapes of every selected object that has
  any.\<close>

fun selected_shapes :: "host \<Rightarrow> string list \<Rightarrow> string list \<Rightarrow> string list" where
  "selected_shapes h shapes_found [] = shapes_found"
| "selected_shapes h shapes_found (each # rest) =
     (if nonempty (listRelatives_shapes h each)
      then selected_shapes h
             (shapes_found @ (case listRelatives_shapes h each of None \<Rightarrow> [] | Some shapes \<Rightarrow> shapes)) rest
      else selected_shapes h shapes_found rest)"

fun export_meshes_loop :: "nat \<Rightarrow> host \<Rightarrow> string list \<Rightarrow> document \<Rightarrow> py_error + document" where
  "export_meshes_loop depth h [] shaders_dict = Inr shaders_dict"
| "export_meshes_loop depth h (each # rest) shaders_dict =
     (case subscript (listConnections h (lc\<lparr>lc_type := Some ''shadingEngine'', lc_destination := True\<rparr>) each) 0 of
        Inl e \<Rightarrow> Inl e
      | Inr shading_engine \<Rightarrow>
          if shading_engine \<in> set (dict_keys shaders_dict) then export_meshes_loop depth h rest shaders_dict
          else
            (case build_shader_dict depth h shading_engine of
               Inl e \<Rightarrow> Inl e
             | Inr shader_dict \<Rightarrow>
                 export_meshes_loop depth h rest (dict_set shading_engine shader_dict shaders_dict)))"

text \<open>The filter of the \<^verbatim>\<open>"shadingEngine"\<close> branch.\<close>

fun selected_engines :: "host \<Rightarrow> string list \<Rightarrow> string list \<Rightarrow> py_error + string list" where
  "selected_engines h shading_engines [] = Inr shading_engines"
| "selected_engines h shading_engines (each # rest) =
     (case showType_last h each of Inl e \<Rightarrow> Inl e
      | Inr t \<Rightarrow>
          if t = ''shadingEngine'' then selected_engines h (shading_engines @ [each]) rest
          else selected_engines h shading_engines rest)"

fun export_engines_loop :: "nat \<Rightarrow> host \<Rightarrow> string list \<Rightarrow> document \<Rightarrow> py_error + document" where
  "export_engines_loop depth h [] shaders_dict = Inr shaders_dict"
| "export_engines_loop depth h (each # rest) shaders_dict =
     (if each \<in> set (dict_keys shaders_dict) then export_engines_loop depth h rest shaders_dict
      else
        (case build_shader_dict depth h each of
           Inl e \<Rightarrow> Inl e
         | Inr shader_dict \<Rightarrow>
             export_engines_loop depth h rest
               (dict_set each (shader_dict\<lparr>meshes := []\<rparr>) shaders_dict)))"

text \<open>
  The outcome of a call: what it logged, and either the exception that ended it or its
  result.  For \<^verbatim>\<open>export_shaders\<close> the result is the dictionary handed to
  \<^verbatim>\<open>json.dump\<close>, that is, the document in the file; \<open>can_write\<close> says whether
  \<^verbatim>\<open>open(full_export_path, "w")\<close> succeeds.
\<close>

definition export_shaders ::
    "nat \<Rightarrow> host \<Rightarrow> (string \<Rightarrow> bool) \<Rightarrow> string \<Rightarrow> string \<Rightarrow> log_entry list \<times> (py_error + document)" where
  "export_shaders depth h can_write full_export_path selection_type =
     (let shaders_dict = [];
          selection = ls_selection h;
          logged = (if length selection < 1
                 then [(ERROR, ''Cannot export because nothing is selected.'')] else []);
          (logged, built) =
            (if selection_type = ''mesh'' then
               (let mesh_shapes = selected_shapes h [] selection;
                    logged = logged @ (if length mesh_shapes < 1
                                 then [(ERROR, ''No Meshes found in selection'')] else [])
                in (logged, export_meshes_loop depth h mesh_shapes shaders_dict))
             else if selection_type = ''shadingEngine'' then
               (case selected_engines h [] selection of
                  Inl e \<Rightarrow> (logged, Inl e)
                | Inr shading_engines \<Rightarrow>
                    (let logged = logged @ (if length shading_engines < 1
                                      then [(ERROR, ''No Meshes found in selection'')] else [])
                     in (logged, export_engines_loop depth h shading_engines shaders_dict)))
             else (logged, Inr shaders_dict))
      in case built of
           Inl e \<Rightarrow> (logged, Inl e)
         | Inr shaders_dict \<Rightarrow>
             if can_write full_export_path
             then (logged @ [(INFO, ''Shaders Successfully Exported.'')], Inr shaders_dict)
             else (logged, Inl OSError))"

section \<open>The JSON document\<close>

text \<open>
  \<^verbatim>\<open>json.dump(shaders_dict, json_file, indent=4, sort_keys=True)\<close> writes the dictionary
  as a JSON value: a dictionary becomes an object, a list or tuple an array.  The order
  of the members of an object and the layout of the text are not modelled.
\<close>

datatype json =
    JNull
  | JBool bool
  | JNum rat
  | JStr string
  | JArr "json list"
  | JObj "(string \<times> json) list"

fun json_of_pyval :: "pyval \<Rightarrow> json" where
  "json_of_pyval PyNone = JNull"
| "json_of_pyval (PyBool b) = JBool b"
| "json_of_pyval (PyInt i) = JNum (of_int i)"
| "json_of_pyval (PyFloat r) = JNum r"
| "json_of_pyval (PyStr s) = JStr s"
| "json_of_pyval (PyList xs) = JArr (map json_of_pyval xs)"
| "json_of_pyval (PyTuple xs) = JArr (map json_of_pyval xs)"

definition json_of_entry :: "node_entry \<Rightarrow> json" where
  "json_of_entry e =
     JObj [(''node_type'', JStr (node_type e)),
           (''Attributes'', JObj (map (\<lambda>(k, v). (k, json_of_pyval v)) (Attributes e)))]"

definition json_of_network :: "shader_network \<Rightarrow> json" where
  "json_of_network n =
     JObj [(''base_material'',
              JObj [(''name'', JStr (bm_name (base_material n))),
                    (''type'', JStr (bm_type (base_material n)))]),
           (''nodes'', JObj (map (\<lambda>(k, e). (k, json_of_entry e)) (nodes n))),
           (''connections'', JArr (map (\<lambda>c. JArr (map JStr c)) (connections n))),
           (''meshes'', JArr (map JStr (meshes n)))]"

definition json_of_document :: "document \<Rightarrow> json" where
  "json_of_document d = JObj (map (\<lambda>(k, n). (k, json_of_network n)) d)"

subsection \<open>The ShaderNetwork shape\<close>

text \<open>
  The shape that the specification gives to a document: an object with one member per
  shading group, each an object with exactly the members \<^verbatim>\<open>base_material\<close> (an object
  with a name and a type), \<^verbatim>\<open>nodes\<close> (an object whose members have a node type and an
  object of attribute values), \<^verbatim>\<open>connections\<close> (an array of pairs of plugs) and
  \<^verbatim>\<open>meshes\<close> (an array of names).  An object has no member twice.
\<close>

fun is_object_with :: "string list \<Rightarrow> json \<Rightarrow> bool" where
  "is_object_with ks (JObj ms) = (distinct (map fst ms) \<and> set (map fst ms) = set ks)"
| "is_object_with ks j = False"

fun json_member :: "json \<Rightarrow> string \<Rightarrow> json" where
  "json_member (JObj ms) k = (case map_of ms k of None \<Rightarrow> JNull | Some j \<Rightarrow> j)"
| "json_member j k = JNull"

fun is_string :: "json \<Rightarrow> bool" where
  "is_string (JStr s) = True"
| "is_string j = False"

fun is_object :: "json \<Rightarrow> bool" where
  "is_object (JObj ms) = distinct (map fst ms)"
| "is_object j = False"

fun is_array_of :: "(json \<Rightarrow> bool) \<Rightarrow> json \<Rightarrow> bool" where
  "is_array_of P (JArr js) = list_all P js"
| "is_array_of P j = False"

fun is_object_of :: "(json \<Rightarrow> bool) \<Rightarrow> json \<Rightarrow> bool" where
  "is_object_of P (JObj ms) = (distinct (map fst ms) \<and> list_all P (map snd ms))"
| "is_object_of P j = False"

fun is_plug_pair :: "json \<Rightarrow> bool" where
  "is_plug_pair (JArr [JStr a, JStr b]) = True"
| "is_plug_pair j = False"

definition is_node_entry :: "json \<Rightarrow> bool" where
  "is_node_entry j =
     (is_object_with [''node_type'', ''Attributes''] j
      \<and> is_string (json_member j ''node_type'')
      \<and> is_object (json_member j ''Attributes''))"

definition is_shader_network :: "json \<Rightarrow> bool" where
  "is_shader_network j =
     (is_object_with [''base_material'', ''nodes'', ''connections'', ''meshes''] j
      \<and> is_object_with [''name'', ''type''] (json_member j ''base_material'')
      \<and> is_string (json_member (json_member j ''base_material'') ''name'')
      \<and> is_string (json_member (json_member j ''base_material'') ''type'')
      \<and> is_object_of is_node_entry (json_member j ''nodes'')
      \<and> is_array_of is_plug_pair (json_member j ''connections'')
      \<and> is_array_of is_string (json_member j ''meshes''))"

definition is_shader_document :: "json \<Rightarrow> bool" where
  "is_shader_document j = is_object_of is_shader_network j"

section \<open>Where a recorded pair comes from\<close>

text \<open>
  A pair of \<^verbatim>\<open>"connections"\<close> is what \<^verbatim>\<open>confirm_attr_order\<close> made of the host's answer
  about a plug of the shading group (\<open>engine_pair\<close>) or about an attribute of a node of
  the network (\<open>node_pair\<close>).
\<close>

definition engine_pair :: "host \<Rightarrow> string \<Rightarrow> string list \<Rightarrow> bool" where
  "engine_pair h shading_engine c =
     (\<exists>each. split_dot_0 each = shading_engine \<and>
        confirm_attr_order h
          (listConnections h (lc\<lparr>lc_connections := True, lc_plugs := True, lc_source := True\<rparr>) each) = Inr c)"

definition node_pair :: "host \<Rightarrow> string \<Rightarrow> string list \<Rightarrow> bool" where
  "node_pair h n c = (\<exists>attr. confirm_attr_order h (incoming h (format_dot n attr)) = Inr c)"

text \<open>A transform that \<^verbatim>\<open>build_shader_dict\<close> reads the attributes of without giving it
  an entry in \<^verbatim>\<open>"nodes"\<close>: its list of shapes is empty but not \<^verbatim>\<open>None\<close>.\<close>

definition bare_transform :: "host \<Rightarrow> string \<Rightarrow> bool" where
  "bare_transform h n = (showType_last h n = Inr ''transform'' \<and> listRelatives_shapes h n = Some [])"

text \<open>
  Two ways in which a host is orderly about its listings of connections with plugs.
  \<open>names_asked_plug\<close>: the first plug of an answer is on the node of the plug that was
  asked about.  \<open>lists_wired_pairs\<close>: the first two plugs of an answer are wired to each
  other, one feeding the other.
\<close>

definition names_asked_plug :: "host \<Rightarrow> bool" where
  "names_asked_plug h =
     (\<forall>f x a rest. lc_connections f \<and> lc_plugs f \<and> listConnections h f x = Some (a # rest)
        \<longrightarrow> split_dot_0 a = split_dot_0 x)"

definition lists_wired_pairs :: "host \<Rightarrow> bool" where
  "lists_wired_pairs h =
     (\<forall>f x a b rest. lc_connections f \<and> lc_plugs f \<and> listConnections h f x = Some (a # b # rest)
        \<longrightarrow> feeds h b a \<or> feeds h a b)"

text \<open>The dictionary \<^verbatim>\<open>"nodes"\<close> has no key twice, and neither has the \<^verbatim>\<open>"Attributes"\<close> of
  any of its entries.\<close>

definition tidy_nodes :: "(string \<times> node_entry) list \<Rightarrow> bool" where
  "tidy_nodes ns = (distinct (map fst ns) \<and> (\<forall>(k, e) \<in> set ns. distinct (map fst (Attributes e))))"

text \<open>A pair that comes from an attribute of a node that has an entry in \<^verbatim>\<open>"nodes"\<close>, or
  of a bare transform.\<close>

definition recorded_pair :: "host \<Rightarrow> shader_network \<Rightarrow> string list \<Rightarrow> bool" where
  "recorded_pair h d c = (\<exists>n. node_pair h n c \<and> (n \<in> fst ` set (nodes d) \<or> bare_transform h n))"

section \<open>import_shaders\<close>

subsection \<open>The host's commands\<close>

text \<open>
  \<^verbatim>\<open>import_shaders\<close> changes the scene.  \<open>'s\<close> is the host's scene state, \<open>look\<close> gives
  the answers to the queries in a state, and each command returns the next state (and
  the name the host gave to the node it created, which is not always the name asked
  for).  \<open>sets_new m name\<close> is
  \<^verbatim>\<open>cmds.sets(name=name, renderable=True, noSurfaceShader=True, empty=True)\<close>,
  \<open>sets_forceElement m each shader_set\<close> is
  \<^verbatim>\<open>cmds.sets(each, edit=True, forceElement=shader_set)\<close>, and the last argument of
  \<open>setAttr\<close> is the \<^verbatim>\<open>type=\<close> flag when the call passes one.
\<close>

record 's maya =
  look :: "'s \<Rightarrow> host"
  delete :: "string \<Rightarrow> 's \<Rightarrow> 's"
  shadingNode :: "string \<Rightarrow> string \<Rightarrow> 's \<Rightarrow> string \<times> 's"
  sets_new :: "string \<Rightarrow> 's \<Rightarrow> string \<times> 's"
  createNode :: "string \<Rightarrow> string \<Rightarrow> 's \<Rightarrow> string \<times> 's"
  setAttr :: "string \<Rightarrow> pyval \<Rightarrow> string option \<Rightarrow> 's \<Rightarrow> 's"
  connectAttr :: "string \<Rightarrow> string \<Rightarrow> 's \<Rightarrow> 's"
  sets_forceElement :: "string \<Rightarrow> string \<Rightarrow> 's \<Rightarrow> 's"

text \<open>
  What a call of \<^verbatim>\<open>import_shaders\<close> can change: the scene, the shared default list of
  \<^verbatim>\<open>get_src_nodes\<close>, and the log.
\<close>

record 's world =
  scene_state :: 's
  default_node_list :: "string list"
  logged :: "log_entry list"

subsection \<open>Comparing values\<close>

text \<open>Python's \<^verbatim>\<open>==\<close>: numbers and booleans compare by value, a list never equals a
  tuple.\<close>

fun py_num :: "pyval \<Rightarrow> rat option" where
  "py_num (PyBool b) = Some (if b then 1 else 0)"
| "py_num (PyInt i) = Some (of_int i)"
| "py_num (PyFloat r) = Some r"
| "py_num v = None"

fun py_eq :: "pyval \<Rightarrow> pyval \<Rightarrow> bool"
  and py_eq_list :: "pyval list \<Rightarrow> pyval list \<Rightarrow> bool"
where
  "py_eq (PyList xs) (PyList ys) = py_eq_list xs ys"
| "py_eq (PyTuple xs) (PyTuple ys) = py_eq_list xs ys"
| "py_eq a b = (case (py_num a, py_num b) of (Some x, Some y) \<Rightarrow> x = y | _ \<Rightarrow> a = b)"
| "py_eq_list [] [] = True"
| "py_eq_list (x # xs) (y # ys) = (py_eq x y \<and> py_eq_list xs ys)"
| "py_eq_list xs ys = False"

subsection \<open>set_attr\<close>

definition type_filter :: "string list" where
  "type_filter = [''float'', ''int'', ''double'', ''bool'', ''enum'', ''short'', ''long'', ''list'']"

definition set_attr :: "'s maya \<Rightarrow> string \<Rightarrow> pyval \<Rightarrow> 's \<Rightarrow> 's" where
  "set_attr m full_name val s =
     (let attr_type = getAttr_type (look m s) full_name
      in if \<not> py_eq val (getAttr (look m s) full_name) then
           (if attr_type \<in> set type_filter then setAttr m full_name val None s
            else setAttr m full_name val (Some attr_type) s)
         else s)"

subsection \<open>Rewriting the plugs of a renamed node\<close>

text \<open>
  The three renaming loops of \<^verbatim>\<open>import_shaders\<close> have one shape:

  \<^verbatim>\<open>for each in shader_network["connections"]:
      index_num = shader_network["connections"].index(each)
      for attr in each:
          num = each.index(attr)
          if attr.startswith(old+"."):
              shaders_dict[shading_engine]["connections"][index_num][num] = attr.replace(old, new)\<close>

  and the loop for the shading group also assigns \<^verbatim>\<open>each[num]\<close>.  The pairs are
  mutable lists inside a mutable list, \<^verbatim>\<open>each\<close> is the \<open>i\<close>th of them and
  \<^verbatim>\<open>shader_network\<close> is \<^verbatim>\<open>shaders_dict[shading_engine]\<close>, so the loops are written over
  positions in the list of pairs as it stands.  \<^verbatim>\<open>list.index\<close> finds the first equal
  element; it is only asked for elements that are there.  Assignments to elements do
  not change a length, so the positions each loop runs over are the ones it starts
  with.  The loop for the other nodes also prints the new plug to the console, which
  is left out.
\<close>

fun index_of :: "'a list \<Rightarrow> 'a \<Rightarrow> nat" where
  "index_of [] x = 0"
| "index_of (y # ys) x = (if y = x then 0 else Suc (index_of ys x))"

definition rename_attr :: "bool \<Rightarrow> string \<Rightarrow> string \<Rightarrow> nat \<Rightarrow> nat \<Rightarrow> nat \<Rightarrow> string list list \<Rightarrow> string list list" where
  "rename_attr assign_each old new index_num i k conns =
     (let each = conns ! i;
          attr = each ! k;
          num = index_of each attr
      in if startswith attr (old @ ''.'') then
           (let conns = conns[index_num := (conns ! index_num)[num := replace attr old new]]
            in if assign_each then conns[i := (conns ! i)[num := replace attr old new]]
               else conns)
         else conns)"

definition rename_pair :: "bool \<Rightarrow> string \<Rightarrow> string \<Rightarrow> nat \<Rightarrow> string list list \<Rightarrow> string list list" where
  "rename_pair assign_each old new i conns =
     (let index_num = index_of conns (conns ! i)
      in fold (rename_attr assign_each old new index_num i) [0 ..< length (conns ! i)] conns)"

definition rename_plugs :: "bool \<Rightarrow> string \<Rightarrow> string \<Rightarrow> string list list \<Rightarrow> string list list" where
  "rename_plugs assign_each old new conns =
     fold (rename_pair assign_each old new) [0 ..< length conns] conns"

subsection \<open>One shader network\<close>

fun set_attrs :: "'s maya \<Rightarrow> string \<Rightarrow> (string \<times> pyval) list \<Rightarrow> 's \<Rightarrow> 's" where
  "set_attrs m node_name [] s = s"
| "set_attrs m node_name ((key, val) # rest) s =
     set_attrs m node_name rest (set_attr m (format_dot node_name key) val s)"

text \<open>The loop \<^verbatim>\<open>for node_name, settings in shader_network["nodes"].items()\<close>; it
  carries the list of pairs and the scene.\<close>

fun create_nodes ::
    "'s maya \<Rightarrow> string \<Rightarrow> (string \<times> node_entry) list \<Rightarrow> string list list \<Rightarrow> 's \<Rightarrow> string list list \<times> 's" where
  "create_nodes m material_name [] conns s = (conns, s)"
| "create_nodes m material_name ((node_name, settings) # rest) conns s =
     (if node_name \<noteq> material_name then
        (case createNode m (node_type settings) node_name s of
           (new_node, s) \<Rightarrow>
             if node_name \<noteq> new_node then
               create_nodes m material_name rest (rename_plugs False node_name new_node conns)
                 (set_attrs m new_node (Attributes settings) s)
             else
               create_nodes m material_name rest conns
                 (set_attrs m node_name (Attributes settings) s))
      else create_nodes m material_name rest conns (set_attrs m node_name (Attributes settings) s))"

text \<open>\<^verbatim>\<open>for each in shader_network["connections"]: cmds.connectAttr(each[0], each[1])\<close>\<close>

fun connect_all :: "'s maya \<Rightarrow> string list list \<Rightarrow> 's \<Rightarrow> 's \<times> py_error option" where
  "connect_all m [] s = (s, None)"
| "connect_all m (each # rest) s =
     (case subscript (Some each) 0 of Inl e \<Rightarrow> (s, Some e) | Inr a \<Rightarrow>
      case subscript (Some each) 1 of Inl e \<Rightarrow> (s, Some e) | Inr b \<Rightarrow>
        connect_all m rest (connectAttr m a b s))"

fun apply_to_meshes :: "'s maya \<Rightarrow> string \<Rightarrow> string list \<Rightarrow> 's \<Rightarrow> 's" where
  "apply_to_meshes m shader_set [] s = s"
| "apply_to_meshes m shader_set (each # rest) s =
     (if objExists (look m s) each
      then apply_to_meshes m shader_set rest (sets_forceElement m each shader_set s)
      else apply_to_meshes m shader_set rest s)"

text \<open>
  The list of pairs as it stands when the loop of \<^verbatim>\<open>connectAttr\<close> starts, with the
  scene then: everything the body of the loop over the networks does before it
  connects.  Moving the entry of the base material raises \<^verbatim>\<open>KeyError\<close> when the
  recorded name is not a key of \<^verbatim>\<open>"nodes"\<close>.
\<close>

definition prepare_network ::
    "'s maya \<Rightarrow> string \<Rightarrow> shader_network \<Rightarrow> 's \<Rightarrow> 's \<times> (py_error + string \<times> string list list)" where
  "prepare_network m shading_engine shader_network s =
     (case shadingNode m (bm_type (base_material shader_network))
             (bm_name (base_material shader_network)) s of
        (material_name, s) \<Rightarrow>
     (case sets_new m shading_engine s of
        (shader_set, s) \<Rightarrow>
     (let conns = connections shader_network;
          conns = (if shading_engine \<noteq> shader_set
                   then rename_plugs True shading_engine shader_set conns else conns);
          old_name = bm_name (base_material shader_network)
      in if old_name \<noteq> material_name then
           (let conns = rename_plugs False old_name material_name conns
            in case map_of (nodes shader_network) old_name of
                 None \<Rightarrow> (s, Inl KeyError)
               | Some entry \<Rightarrow>
                   (case create_nodes m material_name
                           (dict_del old_name (dict_set material_name entry (nodes shader_network)))
                           conns s of
                      (conns, s) \<Rightarrow> (s, Inr (shader_set, conns))))
         else
           (case create_nodes m material_name (nodes shader_network) conns s of
              (conns, s) \<Rightarrow> (s, Inr (shader_set, conns))))))"

definition import_network ::
    "'s maya \<Rightarrow> string \<Rightarrow> shader_network \<Rightarrow> 's \<Rightarrow> 's \<times> py_error option" where
  "import_network m shading_engine shader_network s =
     (case prepare_network m shading_engine shader_network s of
        (s, Inl e) \<Rightarrow> (s, Some e)
      | (s, Inr (shader_set, conns)) \<Rightarrow>
          (case connect_all m conns s of
             (s, Some e) \<Rightarrow> (s, Some e)
           | (s, None) \<Rightarrow>
               if length (meshes shader_network) > 0
               then (apply_to_meshes m shader_set (meshes shader_network) s, None)
               else (s, None)))"

fun import_networks :: "'s maya \<Rightarrow> document \<Rightarrow> 's \<Rightarrow> 's \<times> py_error option" where
  "import_networks m [] s = (s, None)"
| "import_networks m ((shading_engine, shader_network) # rest) s =
     (case import_network m shading_engine shader_network s of
        (s, Some e) \<Rightarrow> (s, Some e)
      | (s, None) \<Rightarrow> import_networks m rest s)"

subsection \<open>The conflict options\<close>

text \<open>\<^verbatim>\<open>"skip"\<close>: the names that exist are collected first and deleted from the
  dictionary afterwards.\<close>

definition skip_existing :: "host \<Rightarrow> document \<Rightarrow> document" where
  "skip_existing h shaders_dict =
     (let skip_list = filter (objExists h) (dict_keys shaders_dict)
      in fold dict_del skip_list shaders_dict)"

text \<open>\<^verbatim>\<open>"replace"\<close>: the inner loop deletes the nodes that are neither default nodes nor
  gone already.\<close>

fun delete_related :: "'s maya \<Rightarrow> string list \<Rightarrow> 's \<Rightarrow> 's" where
  "delete_related m [] s = s"
| "delete_related m (each # rest) s =
     (if each \<in> set (ls_defaultNodes (look m s)) then delete_related m rest s
      else if objExists (look m s) each then delete_related m rest (delete m each s)
      else delete_related m rest s)"

text \<open>The outer loop calls \<^verbatim>\<open>get_src_nodes(shading_engine)\<close> without a list, so it works
  on the shared default list.\<close>

fun replace_existing ::
    "'s maya \<Rightarrow> nat \<Rightarrow> document \<Rightarrow> 's \<Rightarrow> string list \<Rightarrow> ('s \<times> string list) \<times> py_error option" where
  "replace_existing m depth [] s default_list = ((s, default_list), None)"
| "replace_existing m depth ((shading_engine, shader_network) # rest) s default_list =
     (if objExists (look m s) shading_engine then
        (case get_src_nodes_omitted depth (look m s) shading_engine default_list of
           (Inl e, default_list) \<Rightarrow> ((s, default_list), Some e)
         | (Inr all_related_nodes, default_list) \<Rightarrow>
             replace_existing m depth rest (delete_related m all_related_nodes s) default_list)
      else replace_existing m depth rest s default_list)"

subsection \<open>import_shaders\<close>

text \<open>
  \<open>load_json importPath\<close> is \<^verbatim>\<open>json.load\<close> of the opened file: the document, or the
  exception of \<^verbatim>\<open>open\<close> or of the parser.  The result is the world after the call and
  the exception that ended it, if one did.
\<close>

definition finish_import :: "'s maya \<Rightarrow> document \<Rightarrow> 's world \<Rightarrow> 's world \<times> py_error option" where
  "finish_import m shaders_dict w =
     (case import_networks m shaders_dict (scene_state w) of
        (s, Some e) \<Rightarrow> (w\<lparr>scene_state := s\<rparr>, Some e)
      | (s, None) \<Rightarrow>
          (w\<lparr>scene_state := s,
             logged := logged w @ [(INFO, ''Shaders successfully imported'')]\<rparr>, None))"

definition import_shaders ::
    "'s maya \<Rightarrow> (string \<Rightarrow> py_error + document) \<Rightarrow> nat \<Rightarrow> string \<Rightarrow> string \<Rightarrow> 's world
       \<Rightarrow> 's world \<times> py_error option" where
  "import_shaders m load_json depth importPath shader_conflicts w =
     (case load_json importPath of
        Inl e \<Rightarrow> (w, Some e)
      | Inr shaders_dict \<Rightarrow>
          if shader_conflicts = ''skip'' then
            finish_import m (skip_existing (look m (scene_state w)) shaders_dict) w
          else if shader_conflicts = ''replace'' then
            (case replace_existing m depth shaders_dict (scene_state w) (default_node_list w) of
               ((s, default_list), Some e) \<Rightarrow>
                 (w\<lparr>scene_state := s, default_node_list := default_list\<rparr>, Some e)
             | ((s, default_list), None) \<Rightarrow>
                 finish_import m shaders_dict (w\<lparr>scene_state := s, default_node_list := default_list\<rparr>))
          else if shader_conflicts = ''rename'' then finish_import m shaders_dict w
          else if shader_conflicts = ''cancel'' then
            (w\<lparr>logged := logged w @ [(ERROR, ''Shader IO Import cancelled'')]\<rparr>, None)
          else
            finish_import m shaders_dict
              (w\<lparr>logged := logged w @
                  [(ERROR, ''No argument set for parameter: '' @ [CHR 0x22] @ ''shader_conflicts'' @ [CHR 0x22])]\<rparr>))"

section \<open>A small host\<close>

text \<open>
  A host to run the functions on: a scene is a table of typed nodes, the shapes under
  each transform, the default nodes, the wires between plugs (source plug first) and
  the attributes of each node with their type and value.  The queries are answered
  from the tables the way the host application answers them for such a scene.  It
  serves the examples only; the theorems about the module hold for every host.
\<close>

record scene =
  selected :: "string list"
  node_types :: "(string \<times> string) list"
  shapes_of :: "(string \<times> string list) list"
  default_nodes :: "string list"
  wires :: "(string \<times> string) list"
  attributes :: "(string \<times> (string \<times> string \<times> pyval) list) list"

text \<open>A plug belongs to the object asked about when it is that plug or a plug of that
  node.\<close>

definition plug_on :: "string \<Rightarrow> string \<Rightarrow> bool" where
  "plug_on x p = (p = x \<or> split_dot_0 p = x)"

definition type_of_node :: "scene \<Rightarrow> string \<Rightarrow> string" where
  "type_of_node sc n = (case map_of (node_types sc) n of None \<Rightarrow> [] | Some t \<Rightarrow> t)"

text \<open>The connections of \<open>x\<close> as pairs (own plug, other plug), in the directions asked
  for and restricted to the type asked for.\<close>

definition wire_hits :: "scene \<Rightarrow> lc_flags \<Rightarrow> string \<Rightarrow> (string \<times> string) list" where
  "wire_hits sc f x =
     filter (\<lambda>(own, other). case lc_type f of None \<Rightarrow> True
                             | Some t \<Rightarrow> type_of_node sc (split_dot_0 other) = t)
       (concat (map (\<lambda>(s, d).
          (if lc_source f \<and> plug_on x d then [(d, s)] else []) @
          (if lc_destination f \<and> plug_on x s then [(s, d)] else [])) (wires sc)))"

definition scene_listConnections :: "scene \<Rightarrow> lc_flags \<Rightarrow> string \<Rightarrow> string list option" where
  "scene_listConnections sc f x =
     (let shown = (\<lambda>p. if lc_plugs f then p else split_dot_0 p);
          out = (if lc_connections f
                 then concat (map (\<lambda>(own, other). [shown own, shown other]) (wire_hits sc f x))
                 else map (\<lambda>(own, other). shown other) (wire_hits sc f x))
      in if out = [] then None else Some out)"

definition after_dot :: "string \<Rightarrow> string" where
  "after_dot p = drop 1 (dropWhile (\<lambda>c. c \<noteq> CHR ''.'') p)"

definition attribute_of :: "scene \<Rightarrow> string \<Rightarrow> (string \<times> pyval) option" where
  "attribute_of sc p =
     (case map_of (attributes sc) (split_dot_0 p) of
        None \<Rightarrow> None
      | Some attrs \<Rightarrow> map_of attrs (after_dot p))"

text \<open>The objects that use a material: the meshes wired into a shading group that the
  material feeds.\<close>

definition scene_objects_using :: "scene \<Rightarrow> string \<Rightarrow> string list" where
  "scene_objects_using sc material =
     (let groups = map (\<lambda>(s, d). split_dot_0 d)
                     (filter (\<lambda>(s, d). split_dot_0 s = material \<and>
                                type_of_node sc (split_dot_0 d) = ''shadingEngine'') (wires sc))
      in map (\<lambda>(s, d). split_dot_0 s)
           (filter (\<lambda>(s, d). split_dot_0 d \<in> set groups \<and>
                      type_of_node sc (split_dot_0 s) = ''mesh'') (wires sc)))"

definition scene_host :: "scene \<Rightarrow> host" where
  "scene_host sc =
     \<lparr>ls_selection = selected sc,
      ls_showType = (\<lambda>n. case map_of (node_types sc) n of None \<Rightarrow> [] | Some t \<Rightarrow> [n, t]),
      ls_defaultNodes = default_nodes sc,
      objExists = (\<lambda>n. n \<in> set (map fst (node_types sc))),
      listRelatives_shapes =
        (\<lambda>n. case map_of (shapes_of sc) n of None \<Rightarrow> None
              | Some shapes \<Rightarrow> if shapes = [] then None else Some shapes),
      listRelatives_parent =
        (\<lambda>n. case map fst (filter (\<lambda>(t, shapes). n \<in> set shapes) (shapes_of sc)) of
                [] \<Rightarrow> None | ps \<Rightarrow> Some ps),
      listConnections = scene_listConnections sc,
      hyperShade_objects = scene_objects_using sc,
      listAttr = (\<lambda>n. map_option (map fst) (map_of (attributes sc) n)),
      attributeQuery_exists =
        (\<lambda>attr n. case map_of (attributes sc) n of None \<Rightarrow> False
                   | Some attrs \<Rightarrow> attr \<in> set (map fst attrs)),
      attributeQuery_listChildren = (\<lambda>attr n. None),
      getAttr_type = (\<lambda>p. case attribute_of sc p of None \<Rightarrow> [] | Some (t, v) \<Rightarrow> t),
      getAttr = (\<lambda>p. case attribute_of sc p of None \<Rightarrow> PyNone | Some (t, v) \<Rightarrow> v)\<rparr>"

subsection \<open>Commands on a scene\<close>

text \<open>
  A new node gets the name asked for when it is free; otherwise the host counts the
  number at the end of the name up until the name is free.
\<close>

definition is_digit :: "char \<Rightarrow> bool" where
  "is_digit c = (c \<in> set ''0123456789'')"

definition digit_value :: "char \<Rightarrow> nat" where
  "digit_value c = index_of ''0123456789'' c"

definition name_stem :: "string \<Rightarrow> string" where
  "name_stem n = rev (dropWhile is_digit (rev n))"

definition name_number :: "string \<Rightarrow> nat" where
  "name_number n = foldl (\<lambda>acc c. 10 * acc + digit_value c) 0 (rev (takeWhile is_digit (rev n)))"

fun show_digits :: "nat \<Rightarrow> nat \<Rightarrow> string" where
  "show_digits 0 n = []"
| "show_digits (Suc fuel) n =
     (if n < 10 then [''0123456789'' ! n]
      else show_digits fuel (n div 10) @ [''0123456789'' ! (n mod 10)])"

definition show_nat :: "nat \<Rightarrow> string" where
  "show_nat n = show_digits (Suc n) n"

fun first_free :: "string list \<Rightarrow> string \<Rightarrow> nat \<Rightarrow> nat \<Rightarrow> string" where
  "first_free taken stem k 0 = stem @ show_nat k"
| "first_free taken stem k (Suc tries) =
     (if stem @ show_nat k \<notin> set taken then stem @ show_nat k
      else first_free taken stem (Suc k) tries)"

definition unique_name :: "scene \<Rightarrow> string \<Rightarrow> string" where
  "unique_name sc n =
     (let taken = map fst (node_types sc)
      in if n \<notin> set taken then n
         else first_free taken (name_stem n) (Suc (name_number n)) (length taken))"

definition scene_create :: "string \<Rightarrow> string \<Rightarrow> scene \<Rightarrow> string \<times> scene" where
  "scene_create t n sc =
     (unique_name sc n, sc\<lparr>node_types := node_types sc @ [(unique_name sc n, t)]\<rparr>)"

definition scene_delete :: "string \<Rightarrow> scene \<Rightarrow> scene" where
  "scene_delete n sc =
     sc\<lparr>node_types := filter (\<lambda>(k, t). k \<noteq> n) (node_types sc),
        wires := filter (\<lambda>(s, d). split_dot_0 s \<noteq> n \<and> split_dot_0 d \<noteq> n) (wires sc),
        attributes := filter (\<lambda>(k, a). k \<noteq> n) (attributes sc)\<rparr>"

definition scene_setAttr :: "string \<Rightarrow> pyval \<Rightarrow> string option \<Rightarrow> scene \<Rightarrow> scene" where
  "scene_setAttr p v t sc =
     (let n = split_dot_0 p;
          attrs = (case map_of (attributes sc) n of None \<Rightarrow> [] | Some attrs \<Rightarrow> attrs);
          ty = (case t of Some ty \<Rightarrow> ty
                | None \<Rightarrow> (case map_of attrs (after_dot p) of None \<Rightarrow> [] | Some (ty, old) \<Rightarrow> ty))
      in sc\<lparr>attributes := dict_set n (dict_set (after_dot p) (ty, v) attrs) (attributes sc)\<rparr>)"

definition scene_maya :: "scene maya" where
  "scene_maya =
     \<lparr>look = scene_host,
      delete = scene_delete,
      shadingNode = scene_create,
      sets_new = scene_create ''shadingEngine'',
      createNode = scene_create,
      setAttr = scene_setAttr,
      connectAttr = (\<lambda>a b sc. sc\<lparr>wires := wires sc @ [(a, b)]\<rparr>),
      sets_forceElement =
        (\<lambda>each shader_set sc.
           sc\<lparr>wires := wires sc @
                 [(format_dot each ''instObjGroups'', format_dot shader_set ''dagSetMembers'')]\<rparr>)\<rparr>"

subsection \<open>Example scenes and documents\<close>

text \<open>
  A cube with a blinn material; a file texture feeds the colour of the material, and
  the default colour-management node of the scene feeds the texture.
\<close>

definition cube_scene :: scene where
  "cube_scene =
     \<lparr>selected = [''cube''],
      node_types = [(''cube'', ''transform''), (''cubeShape'', ''mesh''),
                    (''sg1'', ''shadingEngine''), (''blinn1'', ''blinn''),
                    (''file1'', ''file''), (''cmGlobals'', ''colorManagementGlobals'')],
      shapes_of = [(''cube'', [''cubeShape''])],
      default_nodes = [''cmGlobals''],
      wires = [(''cubeShape.instObjGroups'', ''sg1.dagSetMembers''),
               (''blinn1.outColor'', ''sg1.surfaceShader''),
               (''file1.outColor'', ''blinn1.color''),
               (''cmGlobals.cmEnabled'', ''file1.cmEnabled'')],
      attributes = [(''blinn1'', [(''color'', ''float3'', PyList [PyTuple [PyFloat 0, PyFloat 0, PyFloat 0]]),
                                  (''eccentricity'', ''float'', PyFloat (3 / 10))]),
                    (''file1'', [(''cmEnabled'', ''bool'', PyBool True),
                                 (''fileTextureName'', ''string'', PyStr ''wood.png'')]),
                    (''cmGlobals'', [(''cmEnabled'', ''bool'', PyBool True)])]\<rparr>"

definition cube_host :: host where
  "cube_host = scene_host cube_scene"

text \<open>The same scene with the shading group selected instead of the cube.\<close>

definition cube_host_sg :: host where
  "cube_host_sg = scene_host (cube_scene\<lparr>selected := [''sg1'']\<rparr>)"

text \<open>The same scene with the camera selected: an object with a shape that is not a
  mesh and belongs to no shading group.\<close>

definition camera_host :: host where
  "camera_host =
     scene_host (cube_scene\<lparr>selected := [''persp''],
       node_types := node_types cube_scene @ [(''persp'', ''transform''), (''perspShape'', ''camera'')],
       shapes_of := shapes_of cube_scene @ [(''persp'', [''perspShape''])]\<rparr>)"

definition any_path :: "string \<Rightarrow> bool" where
  "any_path p = True"

text \<open>An existing path that has a doubled slash and no backslash, and a Windows path.\<close>

definition doubled_slash_path :: string where
  "doubled_slash_path = ''a//b''"

definition windows_path :: string where
  "windows_path = ''C:'' @ [backslash, backslash] @ ''tex'' @ [backslash] @ ''a.json''"

text \<open>
  A document with two file textures, to be imported into a scene that already has a
  node called \<^verbatim>\<open>file1\<close> and no node called \<^verbatim>\<open>file2\<close>.
\<close>

definition two_textures :: shader_network where
  "two_textures =
     \<lparr>base_material = \<lparr>bm_name = ''blinn1'', bm_type = ''blinn''\<rparr>,
      nodes = [(''blinn1'', \<lparr>node_type = ''blinn'', Attributes = []\<rparr>),
               (''file1'', \<lparr>node_type = ''file'', Attributes = []\<rparr>),
               (''file2'', \<lparr>node_type = ''file'', Attributes = []\<rparr>)],
      connections = [[''blinn1.outColor'', ''sg1.surfaceShader''],
                     [''file1.outColor'', ''blinn1.color''],
                     [''file2.outColor'', ''blinn1.specularColor'']],
      meshes = []\<rparr>"

definition one_texture_scene :: scene where
  "one_texture_scene =
     \<lparr>selected = [], node_types = [(''file1'', ''file'')], shapes_of = [], default_nodes = [],
      wires = [], attributes = []\<rparr>"

definition load_two_textures :: "string \<Rightarrow> py_error + document" where
  "load_two_textures importPath = Inr [(''sg1'', two_textures)]"

definition fresh_world :: "scene world" where
  "fresh_world = \<lparr>scene_state = one_texture_scene, default_node_list = [], logged = []\<rparr>"

text \<open>The record that \<^verbatim>\<open>build_shader_dict\<close> makes of the shading group of the cube, and the
  document of an export with the cube selected.\<close>

definition cube_record :: shader_network where
  "cube_record =
     \<lparr>base_material = \<lparr>bm_name = ''blinn1'', bm_type = ''blinn''\<rparr>,
      nodes = [(''blinn1'', \<lparr>node_type = ''blinn'', Attributes = [(''eccentricity'', PyFloat (3 / 10))]\<rparr>),
               (''file1'', \<lparr>node_type = ''file'', Attributes = [(''fileTextureName'', PyStr ''wood.png'')]\<rparr>)],
      connections = [[''blinn1.outColor'', ''sg1.surfaceShader''],
                     [''file1.outColor'', ''blinn1.color''],
                     [''cmGlobals.cmEnabled'', ''file1.cmEnabled'']],
      meshes = [''cubeShape'']\<rparr>"

definition cube_document :: document where
  "cube_document = [(''sg1'', cube_record)]"

section \<open>Properties of the string operations\<close>

lemma startswith_take: "startswith s p = (take (length p) s = p)"
  by (induction s p rule: startswith.induct) auto

lemma contains_single: "contains s [c] = (c \<in> set s)"
  by (induction s) auto

lemma replace_char_absent:
  assumes "c \<noteq> d"
  shows "c \<notin> set (replace s [c] [d])"
proof (induction s rule: length_induct)
  case (1 s)
  show ?case
  proof (cases s)
    case Nil
    then show ?thesis by (simp add: replace.simps)
  next
    case (Cons x xs)
    have IH: "c \<notin> set (replace xs [c] [d])"
      using 1 Cons by simp
    show ?thesis
      using IH assms Cons by (subst replace.simps) auto
  qed
qed

lemma replace_no_new_chars: "set (replace s old new) \<subseteq> set s \<union> set new"
proof (induction s old new rule: replace.induct)
  case (1 s old new)
  show ?case
  proof (cases "old = []")
    case True
    then show ?thesis by (subst replace.simps) auto
  next
    case False
    show ?thesis
    proof (cases "s = []")
      case True
      then show ?thesis using False by (subst replace.simps) auto
    next
      case ne: False
      show ?thesis
      proof (cases "startswith s old")
        case True
        have "set (replace (drop (length old) s) old new) \<subseteq> set (drop (length old) s) \<union> set new"
          using 1(1)[OF False ne True] .
        moreover have "set (drop (length old) s) \<subseteq> set s"
          by (rule set_drop_subset)
        ultimately show ?thesis
          using False ne True by (subst replace.simps) auto
      next
        case nsw: False
        have "set (replace (tl s) old new) \<subseteq> set (tl s) \<union> set new"
          using 1(2)[OF False ne nsw] .
        moreover have "set (tl s) \<subseteq> set s"
          using ne by (cases s) auto
        moreover have "hd s \<in> set s"
          using ne by simp
        ultimately show ?thesis
          using False ne nsw by (subst replace.simps) auto
      qed
    qed
  qed
qed

section \<open>validate_file_path\<close>

lemma tested_path_no_backslash: "backslash \<notin> set (tested_path p)"
proof (cases "backslash \<in> set p")
  case True
  have a: "backslash \<notin> set (replace p [backslash] ''/'')"
    by (rule replace_char_absent) (simp add: backslash_def)
  have "set (replace (replace p [backslash] ''/'') ''//'' ''/'')
          \<subseteq> set (replace p [backslash] ''/'') \<union> set ''/''"
    by (rule replace_no_new_chars)
  then show ?thesis
    using a True by (auto simp: tested_path_def spec_normalized_def backslash_def)
next
  case False
  then show ?thesis by (simp add: tested_path_def)
qed

text \<open>
  C8, as the code has it.  \<^verbatim>\<open>validate_file_path\<close> has no raising branch.  The path it
  tests and returns is \<open>tested_path\<close>: the normalised path when the argument has a
  backslash, the argument itself when it has none (doubled slashes are then kept).  It
  returns that path without logging when it exists, and otherwise logs one error and
  returns \<^verbatim>\<open>None\<close>.  The tested path never has a backslash.
\<close>

theorem validate_file_path_tested_path:
  "validate_file_path path_exists file_path =
     (if path_exists (tested_path file_path) then (Some (tested_path file_path), [])
      else (None, [(ERROR, ''File path not found. '' @ [newline] @ ''Used path: '' @ tested_path file_path)]))
   \<and> backslash \<notin> set (tested_path file_path)"
proof -
  have "validate_file_path path_exists file_path =
     (if path_exists (tested_path file_path) then (Some (tested_path file_path), [])
      else (None, [(ERROR, ''File path not found. '' @ [newline] @ ''Used path: '' @ tested_path file_path)]))"
    by (simp add: validate_file_path_def tested_path_def contains_single spec_normalized_def Let_def)
  then show ?thesis
    using tested_path_no_backslash[of file_path] by simp
qed

theorem validate_file_path_tested_path_witness:
  "validate_file_path any_path windows_path = (Some ''C:/tex/a.json'', [])
   \<and> tested_path windows_path = ''C:/tex/a.json''"
proof -
  have t: "tested_path windows_path = ''C:/tex/a.json''"
    by code_simp
  show ?thesis
    using validate_file_path_tested_path[of any_path windows_path] t
    by (simp add: any_path_def)
qed

text \<open>
  C8 as stated fails: for the existing path \<^verbatim>\<open>a//b\<close>, the normalised path of the claim
  is \<^verbatim>\<open>a/b\<close>, and the function tests and returns \<^verbatim>\<open>a//b\<close>.
\<close>

theorem validate_file_path_keeps_doubled_slash:
  "spec_normalized doubled_slash_path = ''a/b''
   \<and> validate_file_path any_path doubled_slash_path = (Some ''a//b'', [])
   \<and> fst (validate_file_path any_path doubled_slash_path) \<noteq> Some (spec_normalized doubled_slash_path)"
  by code_simp

section \<open>flatten_list\<close>

lemma flatten_loop_append: "flatten_loop acc xs = acc @ flatten_loop [] xs"
proof (induction xs arbitrary: acc)
  case Nil
  show ?case by simp
next
  case (Cons x xs)
  show ?case
    using Cons.IH[of "acc @ seq_items x"] Cons.IH[of "acc @ [x]"]
          Cons.IH[of "seq_items x"] Cons.IH[of "[x]"]
    by simp
qed

lemma flatten_list_Cons:
  "flatten_list (x # xs) = (if is_tuple_or_list x then seq_items x else [x]) @ flatten_list xs"
  unfolding flatten_list_def
  using flatten_loop_append[of "seq_items x" xs] flatten_loop_append[of "[x]" xs]
  by (cases "is_tuple_or_list x") simp_all

text \<open>The function removes one level of nesting, keeping the order.\<close>

lemma flatten_list_one_level:
  "flatten_list xs = concat (map (\<lambda>x. if is_tuple_or_list x then seq_items x else [x]) xs)"
proof (induction xs)
  case Nil
  show ?case by (simp add: flatten_list_def)
next
  case (Cons x xs)
  then show ?case by (simp add: flatten_list_Cons)
qed

lemma flatten_list_flat_when_depth_one:
  assumes "\<forall>x \<in> set matrix. \<forall>y \<in> set (seq_items x). \<not> is_tuple_or_list y"
  shows "\<forall>v \<in> set (flatten_list matrix). \<not> is_tuple_or_list v"
  using assms by (auto simp: flatten_list_one_level split: if_splits)

text \<open>
  C3, at the example of the docstring of \<^verbatim>\<open>flatten_list\<close>.  The docstring promises a
  one-dimensional list for \<^verbatim>\<open>[[1.0,2.3], [4, (), "string_val"]]\<close>; the function returns
  \<^verbatim>\<open>[1.0, 2.3, 4, (), "string_val"]\<close>, which still has the tuple \<^verbatim>\<open>()\<close> as an element.
\<close>

theorem flatten_list_docstring_example:
  "flatten_list docstring_example =
     [PyFloat 1, PyFloat (23 / 10), PyInt 4, PyTuple [], PyStr ''string_val'']
   \<and> list_ex is_tuple_or_list (flatten_list docstring_example)"
  by (simp add: flatten_list_def docstring_example_def)

section \<open>get_src_nodes\<close>

lemma append_new_extends: "\<exists>ys. fst (append_new h node_list srcs) = node_list @ ys"
proof (induction srcs arbitrary: node_list)
  case Nil
  show ?case by simp
next
  case (Cons each rest)
  show ?case
  proof (cases "showType_last h each")
    case (Inl e)
    then show ?thesis by simp
  next
    case (Inr t)
    obtain ys where ys: "fst (append_new h (node_list @ [each]) rest) = (node_list @ [each]) @ ys"
      using Cons.IH by blast
    obtain zs where zs: "fst (append_new h node_list rest) = node_list @ zs"
      using Cons.IH by blast
    show ?thesis
      using Inr ys zs by simp
  qed
qed

text \<open>The list that a call returns starts with the list it was given: nothing is ever
  removed from \<^verbatim>\<open>node_list\<close>.\<close>

lemma get_src_nodes_extends:
  "\<exists>ys. fst (get_src_nodes depth h node_name node_list) = node_list @ ys"
  "\<exists>ys. fst (visit_sources depth h srcs node_list) = node_list @ ys"
proof (induction depth h node_name node_list and depth h srcs node_list
       rule: get_src_nodes_visit_sources.induct)
  case (1 h node_name node_list)
  show ?case by simp
next
  case (2 depth h node_name node_list)
  let ?q = "listConnections h (lc\<lparr>lc_source := True, lc_destination := False, lc_shapes := True\<rparr>) node_name"
  show ?case
  proof (cases ?q)
    case None
    then show ?thesis by simp
  next
    case (Some srcs)
    show ?thesis
    proof (cases "srcs = []")
      case True
      then show ?thesis using Some by simp
    next
      case ne: False
      show ?thesis
      proof (cases "collect_shapes h [] srcs")
        case (Inl e)
        then show ?thesis using Some ne by simp
      next
        case (Inr remove_shapes)
        let ?s = "drop_shapes srcs remove_shapes"
        show ?thesis
        proof (cases "?s = []")
          case True
          then show ?thesis using Some ne Inr by simp
        next
          case ne2: False
          obtain nl err where an: "append_new h node_list ?s = (nl, err)"
            by fastforce
          obtain ys where ys: "nl = node_list @ ys"
            using append_new_extends[of h node_list ?s] an by auto
          show ?thesis
          proof (cases err)
            case (Some e)
            then show ?thesis
              using \<open>?q = Some srcs\<close> ne Inr ne2 an ys by simp
          next
            case None
            obtain zs where "fst (visit_sources depth h ?s nl) = nl @ zs"
              using "2.IH"[OF refl \<open>?q = Some srcs\<close> ne Inr refl ne2 an[symmetric] None] by blast
            then show ?thesis
              using \<open>?q = Some srcs\<close> ne Inr ne2 an ys None by simp
          qed
        qed
      qed
    qed
  qed
next
  case (3 depth h node_list)
  show ?case by simp
next
  case (4 depth h each rest node_list)
  obtain nl err where g: "get_src_nodes depth h each node_list = (nl, err)"
    by fastforce
  obtain ys where ys: "nl = node_list @ ys"
    using "4.IH"(1) g by auto
  show ?case
  proof (cases err)
    case (Some e)
    then show ?thesis using g ys by simp
  next
    case None
    obtain zs where "fst (visit_sources depth h rest nl) = nl @ zs"
      using "4.IH"(2)[OF g[symmetric] None] by blast
    then show ?thesis
      using g ys None by simp
  qed
qed

lemma get_src_nodes_omitted_returns_state:
  assumes "get_src_nodes_omitted depth h n d = (Inr r, d')"
  shows "r = d'" and "d' = fst (get_src_nodes depth h n d)"
  using assms by (auto simp: get_src_nodes_omitted_def split: prod.splits option.splits)

text \<open>
  C9.  When two successive calls omit \<^verbatim>\<open>node_list\<close> and both return, the second works
  on the list the first left in the shared default: its result starts with the whole
  result of the first call, whatever node it was asked about.  In the cube scene the
  sources of \<^verbatim>\<open>blinn1\<close> are reported as \<^verbatim>\<open>[file1, cmGlobals]\<close> by a first call and as
  \<^verbatim>\<open>[cmGlobals, file1]\<close> after a call for \<^verbatim>\<open>file1\<close>, in the same scene: the result is not
  a function of the arguments and the scene.
\<close>

theorem get_src_nodes_default_list_is_shared:
  assumes "get_src_nodes_omitted depth h a default_list = (Inr first_result, default_list')"
    and "get_src_nodes_omitted depth h b default_list' = (Inr second_result, default_list'')"
  shows "set first_result \<subseteq> set second_result
         \<and> (\<exists>more. second_result = first_result @ more)
         \<and> fst (get_src_nodes_omitted 5 cube_host ''blinn1''
                  (snd (get_src_nodes_omitted 5 cube_host ''file1'' [])))
             \<noteq> fst (get_src_nodes_omitted 5 cube_host ''blinn1'' [])"
proof -
  have r1: "first_result = default_list'"
    using get_src_nodes_omitted_returns_state(1)[OF assms(1)] .
  have r2: "second_result = fst (get_src_nodes depth h b default_list')"
    using get_src_nodes_omitted_returns_state[OF assms(2)] by simp
  obtain more where more: "second_result = first_result @ more"
    using get_src_nodes_extends(1)[of depth h b default_list'] r1 r2 by auto
  have differ: "fst (get_src_nodes_omitted 5 cube_host ''blinn1''
                  (snd (get_src_nodes_omitted 5 cube_host ''file1'' [])))
             \<noteq> fst (get_src_nodes_omitted 5 cube_host ''blinn1'' [])"
    by code_simp
  show ?thesis
    using more differ by auto
qed

theorem get_src_nodes_default_list_is_shared_witness:
  "get_src_nodes_omitted 5 cube_host ''file1'' [] = (Inr [''cmGlobals''], [''cmGlobals''])
   \<and> get_src_nodes_omitted 5 cube_host ''blinn1'' [''cmGlobals'']
       = (Inr [''cmGlobals'', ''file1''], [''cmGlobals'', ''file1''])
   \<and> get_src_nodes_omitted 5 cube_host ''blinn1'' []
       = (Inr [''file1'', ''cmGlobals''], [''file1'', ''cmGlobals''])
   \<and> set [''cmGlobals''] \<subseteq> set [''cmGlobals'', ''file1'']"
proof -
  have a: "get_src_nodes_omitted 5 cube_host ''file1'' [] = (Inr [''cmGlobals''], [''cmGlobals''])"
    by code_simp
  have b: "get_src_nodes_omitted 5 cube_host ''blinn1'' [''cmGlobals'']
             = (Inr [''cmGlobals'', ''file1''], [''cmGlobals'', ''file1''])"
    by code_simp
  have c: "get_src_nodes_omitted 5 cube_host ''blinn1'' []
             = (Inr [''file1'', ''cmGlobals''], [''file1'', ''cmGlobals''])"
    by code_simp
  have "set [''cmGlobals''] \<subseteq> set [''cmGlobals'', ''file1'']"
    using get_src_nodes_default_list_is_shared[OF a b] by blast
  then show ?thesis
    using a b c by blast
qed

section \<open>Invariants of the export\<close>

lemma confirm_attr_order_Inr:
  assumes "confirm_attr_order h r = Inr c"
  shows "\<exists>a b rest. r = Some (a # b # rest) \<and> c = (if feeds h b a then [b, a] else [a, b])"
proof -
  obtain xs where r: "r = Some xs" and len: "1 < length xs"
    using assms by (auto simp: confirm_attr_order_def subscript_def split: option.splits if_splits)
  obtain a b rest where xs: "xs = a # b # rest"
    using len by (cases xs; cases "tl xs") auto
  have "confirm_attr_order h r = Inr (if feeds h b a then [b, a] else [a, b])"
    using r xs by (simp add: confirm_attr_order_def subscript_def nonempty_def feeds_def split: option.splits)
  then show ?thesis using assms r xs by auto
qed

lemma confirm_attr_order_length: "confirm_attr_order h r = Inr c \<Longrightarrow> length c = 2"
  using confirm_attr_order_Inr by fastforce

lemma dict_set_keys: "fst ` set (dict_set k v ps) = insert k (fst ` set ps)"
  by (induction ps) auto

lemma dict_set_distinct: "distinct (map fst ps) \<Longrightarrow> distinct (map fst (dict_set k v ps))"
  by (induction ps) (auto simp: dict_set_keys)

lemma dict_set_present: "k \<in> set (map fst ps) \<Longrightarrow> map fst (dict_set k v ps) = map fst ps"
  by (induction ps) auto

lemma dict_set_entries: "p \<in> set (dict_set k v ps) \<Longrightarrow> p = (k, v) \<or> p \<in> set ps"
  by (induction ps) (auto split: if_splits)

lemma engine_body_inv:
  assumes "engine_body h se each d = Inr d'"
  shows "base_material d' = base_material d \<and> nodes d' = nodes d \<and> meshes d' = meshes d
         \<and> (\<forall>c \<in> set (connections d'). c \<in> set (connections d) \<or> engine_pair h se c)"
  using assms unfolding engine_body_def engine_pair_def
  by (auto split: if_splits sum.splits)

lemma engine_loop_inv:
  assumes "engine_loop h se src d = Inr d'"
  shows "base_material d' = base_material d \<and> nodes d' = nodes d \<and> meshes d' = meshes d
         \<and> (\<forall>c \<in> set (connections d'). c \<in> set (connections d) \<or> engine_pair h se c)"
  using assms
proof (induction src arbitrary: d)
  case Nil then show ?case by simp
next
  case (Cons each rest)
  obtain d1 where b: "engine_body h se each d = Inr d1" and l: "engine_loop h se rest d1 = Inr d'"
    using Cons.prems by (auto split: sum.splits)
  show ?case using engine_body_inv[OF b] Cons.IH[OF l] by auto
qed

lemma store_attribute_inv:
  assumes "store_attribute each attr val d = Inr d'"
  shows "base_material d' = base_material d \<and> connections d' = connections d \<and> meshes d' = meshes d
         \<and> map fst (nodes d') = map fst (nodes d) \<and> (tidy_nodes (nodes d) \<longrightarrow> tidy_nodes (nodes d'))"
proof -
  obtain entry where e: "map_of (nodes d) each = Some entry"
    and d': "d' = d\<lparr>nodes := dict_set each (entry\<lparr>Attributes := dict_set attr val (Attributes entry)\<rparr>) (nodes d)\<rparr>"
    using assms by (auto simp: store_attribute_def split: option.splits)
  have inn: "(each, entry) \<in> set (nodes d)" using e by (rule map_of_SomeD)
  then have k: "each \<in> set (map fst (nodes d))" by force
  have keys: "map fst (nodes d') = map fst (nodes d)" using d' dict_set_present[OF k] by simp
  have tidy: "tidy_nodes (nodes d')" if t: "tidy_nodes (nodes d)"
  proof -
    have "distinct (map fst (Attributes entry))" using t inn by (auto simp: tidy_nodes_def)
    then have da: "distinct (map fst (dict_set attr val (Attributes entry)))" by (rule dict_set_distinct)
    have "\<forall>(k, e) \<in> set (nodes d'). distinct (map fst (Attributes e))"
    proof (clarify)
      fix k e assume "(k, e) \<in> set (nodes d')"
      then have "(k, e) = (each, entry\<lparr>Attributes := dict_set attr val (Attributes entry)\<rparr>) \<or> (k, e) \<in> set (nodes d)"
        using d' dict_set_entries by fastforce
      then show "distinct (map fst (Attributes e))" using da t by (auto simp: tidy_nodes_def)
    qed
    then show ?thesis using keys t by (simp add: tidy_nodes_def)
  qed
  show ?thesis using d' keys tidy by simp
qed

lemma attr_body_inv:
  assumes "attr_body h each attr skip d = Inr (skip', d')"
  shows "base_material d' = base_material d \<and> meshes d' = meshes d
         \<and> map fst (nodes d') = map fst (nodes d) \<and> (tidy_nodes (nodes d) \<longrightarrow> tidy_nodes (nodes d'))
         \<and> (\<forall>c \<in> set (connections d'). c \<in> set (connections d) \<or> node_pair h each c)"
proof (cases "attributeQuery_exists h attr each \<and> nonempty (incoming h (format_dot each attr))")
  case True
  then obtain c where c: "confirm_attr_order h (incoming h (format_dot each attr)) = Inr c"
    and d': "d' = d \<or> d' = d\<lparr>connections := connections d @ [c]\<rparr>"
    using assms by (auto simp: attr_body_def Let_def split: sum.splits if_splits)
  have "node_pair h each c" using c by (auto simp: node_pair_def)
  then show ?thesis using d' by auto
next
  case False
  then have "d' = d \<or> (\<exists>v. store_attribute each attr v d = Inr d')"
    using assms by (auto simp: attr_body_def Let_def split: sum.splits if_splits)
  then show ?thesis using store_attribute_inv by fastforce
qed

lemma attr_loop_inv:
  assumes "attr_loop h each attrs skip d = Inr d'"
  shows "base_material d' = base_material d \<and> meshes d' = meshes d
         \<and> map fst (nodes d') = map fst (nodes d) \<and> (tidy_nodes (nodes d) \<longrightarrow> tidy_nodes (nodes d'))
         \<and> (\<forall>c \<in> set (connections d'). c \<in> set (connections d) \<or> node_pair h each c)"
  using assms
proof (induction attrs arbitrary: skip d)
  case Nil then show ?case by simp
next
  case (Cons attr rest)
  obtain skip1 d1 where b: "attr_body h each attr skip d = Inr (skip1, d1)"
    and l: "attr_loop h each rest skip1 d1 = Inr d'"
    using Cons.prems by (auto split: sum.splits)
  show ?case using attr_body_inv[OF b] Cons.IH[OF l] by auto
qed

lemma node_filter_inv:
  assumes "node_filter h each d = Inr (Some d1)"
  shows "base_material d1 = base_material d \<and> connections d1 = connections d \<and> meshes d1 = meshes d
         \<and> ((d1 = d \<and> bare_transform h each)
              \<or> (\<exists>t. nodes d1 = dict_set each \<lparr>node_type = t, Attributes = []\<rparr> (nodes d)))"
  using assms unfolding node_filter_def bare_transform_def
  by (auto split: sum.splits if_splits option.splits)

lemma tidy_nodes_dict_set:
  assumes "tidy_nodes ns"
  shows "tidy_nodes (dict_set k \<lparr>node_type = t, Attributes = []\<rparr> ns)"
proof -
  have "distinct (map fst (dict_set k \<lparr>node_type = t, Attributes = []\<rparr> ns))"
    using assms dict_set_distinct by (auto simp: tidy_nodes_def)
  moreover have "\<forall>(k', e) \<in> set (dict_set k \<lparr>node_type = t, Attributes = []\<rparr> ns). distinct (map fst (Attributes e))"
  proof (clarify)
    fix k' e assume "(k', e) \<in> set (dict_set k \<lparr>node_type = t, Attributes = []\<rparr> ns)"
    then have "(k', e) = (k, \<lparr>node_type = t, Attributes = []\<rparr>) \<or> (k', e) \<in> set ns"
      by (rule dict_set_entries)
    then show "distinct (map fst (Attributes e))" using assms by (auto simp: tidy_nodes_def)
  qed
  ultimately show ?thesis by (simp add: tidy_nodes_def)
qed

lemma nodes_loop_inv:
  assumes "nodes_loop h ns d = Inr d'"
  shows "base_material d' = base_material d \<and> meshes d' = meshes d
         \<and> fst ` set (nodes d) \<subseteq> fst ` set (nodes d')
         \<and> (tidy_nodes (nodes d) \<longrightarrow> tidy_nodes (nodes d'))
         \<and> (\<forall>c \<in> set (connections d'). c \<in> set (connections d) \<or> recorded_pair h d' c)"
  using assms
proof (induction ns arbitrary: d)
  case Nil then show ?case by simp
next
  case (Cons each rest)
  show ?case
  proof (cases "node_filter h each d")
    case (Inl e) then show ?thesis using Cons.prems by simp
  next
    case (Inr r)
    show ?thesis
    proof (cases r)
      case None
      then have "nodes_loop h rest d = Inr d'" using Cons.prems Inr by simp
      then show ?thesis by (rule Cons.IH)
    next
      case (Some d1)
      have nf: "node_filter h each d = Inr (Some d1)" using Inr Some by simp
      obtain attrs d2 where la: "listAttr h each = Some attrs"
        and al: "attr_loop h each attrs [] d1 = Inr d2"
        and nl: "nodes_loop h rest d2 = Inr d'"
        using Cons.prems nf by (auto split: option.splits sum.splits)
      note F = node_filter_inv[OF nf]
      note A = attr_loop_inv[OF al]
      note R = Cons.IH[OF nl]
      have F_bm: "base_material d1 = base_material d" and F_me: "meshes d1 = meshes d"
        and F_co: "connections d1 = connections d"
        using F by simp_all
      have F_no: "(d1 = d \<and> bare_transform h each)
              \<or> (\<exists>t. nodes d1 = dict_set each \<lparr>node_type = t, Attributes = []\<rparr> (nodes d))"
        using F by simp
      have A_bm: "base_material d2 = base_material d1" and A_me: "meshes d2 = meshes d1"
        and A_keys: "map fst (nodes d2) = map fst (nodes d1)"
        and A_tidy: "tidy_nodes (nodes d1) \<longrightarrow> tidy_nodes (nodes d2)"
        and A_co: "\<forall>c \<in> set (connections d2). c \<in> set (connections d1) \<or> node_pair h each c"
        using A by simp_all
      have R_bm: "base_material d' = base_material d2" and R_me: "meshes d' = meshes d2"
        and R_keys: "fst ` set (nodes d2) \<subseteq> fst ` set (nodes d')"
        and R_tidy: "tidy_nodes (nodes d2) \<longrightarrow> tidy_nodes (nodes d')"
        and R_co: "\<forall>c \<in> set (connections d'). c \<in> set (connections d2) \<or> recorded_pair h d' c"
        using R by simp_all
      have keys1: "fst ` set (nodes d) \<subseteq> fst ` set (nodes d1)"
      proof (rule disjE[OF F_no])
        assume "d1 = d \<and> bare_transform h each"
        then show ?thesis by simp
      next
        assume "\<exists>t. nodes d1 = dict_set each \<lparr>node_type = t, Attributes = []\<rparr> (nodes d)"
        then obtain t where "nodes d1 = dict_set each \<lparr>node_type = t, Attributes = []\<rparr> (nodes d)"
          by blast
        then show ?thesis by (simp add: dict_set_keys subset_insertI)
      qed
      have keys2: "fst ` set (nodes d2) = fst ` set (nodes d1)"
      proof -
        have "set (map fst (nodes d2)) = set (map fst (nodes d1))"
          using A_keys by simp
        then show ?thesis by simp
      qed
      have tidy1: "tidy_nodes (nodes d1)" if td: "tidy_nodes (nodes d)"
      proof (rule disjE[OF F_no])
        assume "d1 = d \<and> bare_transform h each"
        then show ?thesis using td by simp
      next
        assume "\<exists>t. nodes d1 = dict_set each \<lparr>node_type = t, Attributes = []\<rparr> (nodes d)"
        then obtain t where "nodes d1 = dict_set each \<lparr>node_type = t, Attributes = []\<rparr> (nodes d)"
          by blast
        then show ?thesis using tidy_nodes_dict_set[OF td] by simp
      qed
      have here1: "each \<in> fst ` set (nodes d1) \<or> bare_transform h each"
      proof (rule disjE[OF F_no])
        assume "d1 = d \<and> bare_transform h each"
        then show ?thesis by simp
      next
        assume "\<exists>t. nodes d1 = dict_set each \<lparr>node_type = t, Attributes = []\<rparr> (nodes d)"
        then obtain t where "nodes d1 = dict_set each \<lparr>node_type = t, Attributes = []\<rparr> (nodes d)"
          by blast
        then show ?thesis by (simp add: dict_set_keys)
      qed
      have here: "each \<in> fst ` set (nodes d') \<or> bare_transform h each"
        using here1 keys2 R_keys by blast
      have pairs: "c \<in> set (connections d) \<or> recorded_pair h d' c" if c: "c \<in> set (connections d')" for c
      proof -
        from R_co c consider "c \<in> set (connections d2)" | "recorded_pair h d' c"
          by blast
        then show ?thesis
        proof cases
          case 1
          then have "c \<in> set (connections d1) \<or> node_pair h each c"
            using A_co by blast
          then show ?thesis
          proof
            assume "c \<in> set (connections d1)"
            then show ?thesis using F_co by simp
          next
            assume "node_pair h each c"
            then have "recorded_pair h d' c"
              unfolding recorded_pair_def using here by blast
            then show ?thesis by simp
          qed
        next
          case 2
          then show ?thesis by simp
        qed
      qed
      have c1: "base_material d' = base_material d"
        using F_bm A_bm R_bm by simp
      have c2: "meshes d' = meshes d"
        using F_me A_me R_me by simp
      have c3: "fst ` set (nodes d) \<subseteq> fst ` set (nodes d')"
        using keys1 keys2 R_keys by blast
      have c4: "tidy_nodes (nodes d) \<longrightarrow> tidy_nodes (nodes d')"
        using tidy1 A_tidy R_tidy by blast
      have c5: "\<forall>c \<in> set (connections d'). c \<in> set (connections d) \<or> recorded_pair h d' c"
        using pairs by blast
      show ?thesis using c1 c2 c3 c4 c5 by blast
    qed
  qed
qed

lemma meshes_loop_all:
  "set todo \<subseteq> set mwm \<Longrightarrow> meshes_loop h mwm acc todo = Inr (acc @ todo)"
proof (induction todo arbitrary: acc)
  case Nil
  show ?case by simp
next
  case (Cons x xs)
  have x: "x \<in> set mwm" and xs: "set xs \<subseteq> set mwm"
    using Cons.prems by auto
  show ?case
    using x Cons.IH[OF xs, of "acc @ [x]"] by simp
qed

lemma build_shader_dict_inv:
  assumes "build_shader_dict depth h se = Inr d"
  shows "meshes d = hyperShade_objects h (bm_name (base_material d))
         \<and> tidy_nodes (nodes d)
         \<and> (\<forall>c \<in> set (connections d). engine_pair h se c \<or> recorded_pair h d c)"
proof -
  let ?q = "listConnections h (lc\<lparr>lc_destination := False\<rparr>) (format_dot se ''surfaceShader'')"
  obtain material_name where m: "subscript ?q 0 = Inr material_name"
    using assms by (auto simp: build_shader_dict_def split: sum.splits)
  obtain material_type where t: "subscript (Some (ls_showType h material_name)) 1 = Inr material_type"
    using assms m by (auto simp: build_shader_dict_def split: sum.splits)
  let ?mwm = "hyperShade_objects h material_name"
  let ?d0 = "\<lparr>base_material = \<lparr>bm_name = material_name, bm_type = material_type\<rparr>,
              nodes = [], connections = [], meshes = ?mwm\<rparr>"
  have ml: "meshes_loop h ?mwm [] ?mwm = Inr ?mwm"
    using meshes_loop_all[of ?mwm ?mwm h "[]"] by simp
  obtain src d1 nodes_found where
    el: "engine_loop h se src ?d0 = Inr d1"
    and g: "get_src_nodes depth h se [] = (nodes_found, None)"
    and nl: "nodes_loop h nodes_found d1 = Inr d"
    using assms m t ml
    by (auto simp: build_shader_dict_def Let_def split: sum.splits option.splits prod.splits)
  note E = engine_loop_inv[OF el]
  note N = nodes_loop_inv[OF nl]
  have tidy0: "tidy_nodes (nodes d1)" using E by (simp add: tidy_nodes_def)
  have "meshes d = ?mwm" using E N by simp
  moreover have "bm_name (base_material d) = material_name" using E N by simp
  moreover have "tidy_nodes (nodes d)" using N tidy0 by simp
  moreover have "\<forall>c \<in> set (connections d). engine_pair h se c \<or> recorded_pair h d c"
    using E N by auto
  ultimately show ?thesis by simp
qed

lemma export_meshes_loop_inv:
  assumes "export_meshes_loop depth h ms doc = Inr doc'"
  shows "(distinct (map fst doc) \<longrightarrow> distinct (map fst doc'))
         \<and> (\<forall>(k, v) \<in> set doc'. (k, v) \<in> set doc \<or> build_shader_dict depth h k = Inr v)"
  using assms
proof (induction ms arbitrary: doc)
  case Nil then show ?case by auto
next
  case (Cons each rest)
  let ?q = "listConnections h (lc\<lparr>lc_type := Some ''shadingEngine'', lc_destination := True\<rparr>) each"
  obtain se where se: "subscript ?q 0 = Inr se"
    using Cons.prems by (auto split: sum.splits)
  show ?case
  proof (cases "se \<in> set (dict_keys doc)")
    case True
    then have "export_meshes_loop depth h rest doc = Inr doc'" using Cons.prems se by simp
    then show ?thesis by (rule Cons.IH)
  next
    case False
    obtain d where b: "build_shader_dict depth h se = Inr d"
      and l: "export_meshes_loop depth h rest (dict_set se d doc) = Inr doc'"
      using Cons.prems se False by (auto split: sum.splits)
    note R = Cons.IH[OF l]
    have "\<forall>(k, v) \<in> set doc'. (k, v) \<in> set doc \<or> build_shader_dict depth h k = Inr v"
    proof (clarify)
      fix k v assume kv: "(k, v) \<in> set doc'" and nb: "build_shader_dict depth h k \<noteq> Inr v"
      then have "(k, v) \<in> set (dict_set se d doc)" using R by auto
      then have "(k, v) = (se, d) \<or> (k, v) \<in> set doc" by (rule dict_set_entries)
      then show "(k, v) \<in> set doc" using b nb by auto
    qed
    moreover have "distinct (map fst doc) \<Longrightarrow> distinct (map fst (dict_set se d doc))"
      by (rule dict_set_distinct)
    ultimately show ?thesis using R by blast
  qed
qed

lemma export_engines_loop_inv:
  assumes "export_engines_loop depth h ses doc = Inr doc'"
  shows "(distinct (map fst doc) \<longrightarrow> distinct (map fst doc'))
         \<and> (\<forall>(k, v) \<in> set doc'. (k, v) \<in> set doc
               \<or> (\<exists>d. build_shader_dict depth h k = Inr d \<and> v = d\<lparr>meshes := []\<rparr>))"
  using assms
proof (induction ses arbitrary: doc)
  case Nil then show ?case by auto
next
  case (Cons each rest)
  show ?case
  proof (cases "each \<in> set (dict_keys doc)")
    case True
    then have "export_engines_loop depth h rest doc = Inr doc'" using Cons.prems by simp
    then show ?thesis by (rule Cons.IH)
  next
    case False
    obtain d where b: "build_shader_dict depth h each = Inr d"
      and l: "export_engines_loop depth h rest (dict_set each (d\<lparr>meshes := []\<rparr>) doc) = Inr doc'"
      using Cons.prems False by (auto split: sum.splits)
    note R = Cons.IH[OF l]
    have "\<forall>(k, v) \<in> set doc'. (k, v) \<in> set doc
               \<or> (\<exists>d. build_shader_dict depth h k = Inr d \<and> v = d\<lparr>meshes := []\<rparr>)"
    proof (clarify)
      fix k v assume kv: "(k, v) \<in> set doc'"
        and nb: "\<not> (\<exists>d. build_shader_dict depth h k = Inr d \<and> v = d\<lparr>meshes := []\<rparr>)"
      then have "(k, v) \<in> set (dict_set each (d\<lparr>meshes := []\<rparr>) doc)" using R by auto
      then have "(k, v) = (each, d\<lparr>meshes := []\<rparr>) \<or> (k, v) \<in> set doc" by (rule dict_set_entries)
      then show "(k, v) \<in> set doc" using b nb by auto
    qed
    moreover have "distinct (map fst doc) \<Longrightarrow> distinct (map fst (dict_set each (d\<lparr>meshes := []\<rparr>) doc))"
      by (rule dict_set_distinct)
    ultimately show ?thesis using R by blast
  qed
qed

lemma export_shaders_inv:
  assumes "export_shaders depth h can_write path sel = (lg, Inr doc)"
  shows "distinct (map fst doc)
         \<and> (\<forall>(k, v) \<in> set doc.
               (sel = ''mesh'' \<and> build_shader_dict depth h k = Inr v)
               \<or> (sel = ''shadingEngine'' \<and> (\<exists>d. build_shader_dict depth h k = Inr d \<and> v = d\<lparr>meshes := []\<rparr>)))"
proof (cases "sel = ''mesh''")
  case True
  then have "export_meshes_loop depth h (selected_shapes h [] (ls_selection h)) [] = Inr doc"
    using assms by (auto simp: export_shaders_def Let_def split: sum.splits if_splits)
  from export_meshes_loop_inv[OF this] show ?thesis using True by auto
next
  case nm: False
  show ?thesis
  proof (cases "sel = ''shadingEngine''")
    case True
    then obtain ses where "export_engines_loop depth h ses [] = Inr doc"
      using assms by (auto simp: export_shaders_def Let_def split: sum.splits if_splits)
    from export_engines_loop_inv[OF this] show ?thesis using True by auto
  next
    case False
    then have "doc = []" using assms nm by (auto simp: export_shaders_def Let_def split: sum.splits if_splits)
    then show ?thesis by simp
  qed
qed

section \<open>The small host is orderly\<close>

lemma split_dot_0_idem: "split_dot_0 (split_dot_0 p) = split_dot_0 p"
  by (simp add: split_dot_0_def takeWhile_idem)

lemma split_dot_0_format_dot: "split_dot_0 (format_dot n attr) = split_dot_0 n"
  by (simp add: split_dot_0_def format_dot_def takeWhile_tail)

lemma plug_on_prefix: "plug_on x p \<Longrightarrow> split_dot_0 p = split_dot_0 x"
  unfolding plug_on_def using split_dot_0_idem by auto

lemma wire_hits_cases:
  assumes "(own, other) \<in> set (wire_hits sc f x)"
  shows "plug_on x own \<and> ((other, own) \<in> set (wires sc) \<or> (own, other) \<in> set (wires sc))"
  using assms unfolding wire_hits_def by (auto split: if_splits)

lemma wire_is_listed_source:
  assumes "(s, d) \<in> set (wires sc)"
  shows "feeds (scene_host sc) s d"
proof -
  let ?f = "lc\<lparr>lc_plugs := True, lc_destination := False\<rparr>"
  have "(d, s) \<in> set (wire_hits sc ?f d)"
    using assms unfolding wire_hits_def by (force simp: lc_def plug_on_def)
  then have "s \<in> set (map (\<lambda>(own, other). other) (wire_hits sc ?f d))"
    by force
  then show ?thesis
    by (auto simp: feeds_def source_plugs_def scene_host_def scene_listConnections_def lc_def Let_def
             split: option.splits if_splits)
qed

lemma concat_pairs_head:
  assumes "concat (map (\<lambda>(own, other). [own, other]) hits) = a # rest"
  shows "\<exists>b rest'. rest = b # rest' \<and> (a, b) \<in> set hits"
  using assms by (cases hits) auto

lemma scene_host_answer_head:
  assumes "lc_connections f" "lc_plugs f" "listConnections (scene_host sc) f x = Some (a # rest)"
  shows "\<exists>b rest'. rest = b # rest' \<and> (a, b) \<in> set (wire_hits sc f x)"
proof -
  have "concat (map (\<lambda>(own, other). [own, other]) (wire_hits sc f x)) = a # rest"
    using assms by (simp add: scene_host_def scene_listConnections_def Let_def split: if_splits)
  then show ?thesis by (rule concat_pairs_head)
qed

lemma scene_host_names_asked_plug: "names_asked_plug (scene_host sc)"
  unfolding names_asked_plug_def
proof (intro allI impI)
  fix f x a rest
  assume h: "lc_connections f \<and> lc_plugs f \<and> listConnections (scene_host sc) f x = Some (a # rest)"
  then obtain b where "(a, b) \<in> set (wire_hits sc f x)"
    using scene_host_answer_head[of f sc x a rest] by blast
  then have "plug_on x a" using wire_hits_cases by blast
  then show "split_dot_0 a = split_dot_0 x" by (rule plug_on_prefix)
qed

lemma scene_host_lists_wired_pairs: "lists_wired_pairs (scene_host sc)"
  unfolding lists_wired_pairs_def
proof (intro allI impI)
  fix f x a b rest
  assume h: "lc_connections f \<and> lc_plugs f \<and> listConnections (scene_host sc) f x = Some (a # b # rest)"
  then have "(a, b) \<in> set (wire_hits sc f x)"
    using scene_host_answer_head[of f sc x a "b # rest"] by auto
  then have "(b, a) \<in> set (wires sc) \<or> (a, b) \<in> set (wires sc)"
    using wire_hits_cases by blast
  then show "feeds (scene_host sc) b a \<or> feeds (scene_host sc) a b"
    using wire_is_listed_source by blast
qed

lemma confirm_attr_order_keeps_first:
  assumes "confirm_attr_order h (Some (a # rest)) = Inr c"
  shows "a \<in> set c"
  using confirm_attr_order_Inr[OF assms] by auto

lemma confirm_attr_order_Some:
  assumes "confirm_attr_order h r = Inr c"
  shows "\<exists>a rest. r = Some (a # rest) \<and> a \<in> set c"
  using confirm_attr_order_Inr[OF assms] by auto


section \<open>The pairs of a record\<close>

lemma stored_pair_source_first:
  assumes w: "lists_wired_pairs h" and c: "confirm_attr_order h (listConnections h f x) = Inr c"
    and f: "lc_connections f" "lc_plugs f"
  shows "\<exists>s t. c = [s, t] \<and> feeds h s t"
proof -
  obtain a b rest where ans: "listConnections h f x = Some (a # b # rest)"
    and cc: "c = (if feeds h b a then [b, a] else [a, b])"
    using confirm_attr_order_Inr[OF c] by blast
  have "feeds h b a \<or> feeds h a b"
    using w f ans unfolding lists_wired_pairs_def by blast
  then show ?thesis using cc by auto
qed

lemma engine_pair_source_first:
  assumes "lists_wired_pairs h" "engine_pair h se c"
  shows "\<exists>s t. c = [s, t] \<and> feeds h s t"
proof -
  obtain each where "confirm_attr_order h
          (listConnections h (lc\<lparr>lc_connections := True, lc_plugs := True, lc_source := True\<rparr>) each) = Inr c"
    using assms(2) unfolding engine_pair_def by blast
  then show ?thesis
    using stored_pair_source_first[OF assms(1)] by simp
qed

lemma node_pair_source_first:
  assumes "lists_wired_pairs h" "node_pair h n c"
  shows "\<exists>s t. c = [s, t] \<and> feeds h s t"
proof -
  obtain attr where "confirm_attr_order h (incoming h (format_dot n attr)) = Inr c"
    using assms(2) unfolding node_pair_def by blast
  then show ?thesis
    unfolding incoming_def using stored_pair_source_first[OF assms(1)] by simp
qed

text \<open>
  C5.  Given two connected plugs, \<^verbatim>\<open>confirm_attr_order\<close> returns \<^verbatim>\<open>[attr_2, attr_1]\<close>
  exactly when the host lists \<^verbatim>\<open>attr_2\<close> among the sources that feed \<^verbatim>\<open>attr_1\<close>, and
  \<^verbatim>\<open>[attr_1, attr_2]\<close> otherwise.  Every pair stored in the \<^verbatim>\<open>"connections"\<close> of a record
  is made by this function from a listing of the host, so on a host whose listings
  pair plugs that are wired to each other, every stored pair is source plug first,
  destination plug second.
\<close>

theorem confirm_attr_order_source_first:
  "confirm_attr_order h (Some (attr_1 # attr_2 # rest)) =
     Inr (if feeds h attr_2 attr_1 then [attr_2, attr_1] else [attr_1, attr_2])
   \<and> (lists_wired_pairs h \<longrightarrow> build_shader_dict depth h shading_engine = Inr d
        \<longrightarrow> c \<in> set (connections d) \<longrightarrow> (\<exists>s t. c = [s, t] \<and> feeds h s t))"
proof -
  have first: "confirm_attr_order h (Some (attr_1 # attr_2 # rest)) =
     Inr (if feeds h attr_2 attr_1 then [attr_2, attr_1] else [attr_1, attr_2])"
    by (simp add: confirm_attr_order_def subscript_def nonempty_def feeds_def split: option.splits)
  have second: "\<exists>s t. c = [s, t] \<and> feeds h s t"
    if w: "lists_wired_pairs h" and b: "build_shader_dict depth h shading_engine = Inr d"
      and c: "c \<in> set (connections d)"
  proof -
    have "engine_pair h shading_engine c \<or> recorded_pair h d c"
      using build_shader_dict_inv[OF b] c by blast
    then show ?thesis
    proof
      assume "engine_pair h shading_engine c"
      then show ?thesis by (rule engine_pair_source_first[OF w])
    next
      assume "recorded_pair h d c"
      then obtain n where "node_pair h n c" unfolding recorded_pair_def by blast
      then show ?thesis by (rule node_pair_source_first[OF w])
    qed
  qed
  show ?thesis using first second by blast
qed

theorem confirm_attr_order_source_first_witness:
  "lists_wired_pairs cube_host
   \<and> build_shader_dict 5 cube_host ''sg1'' = Inr cube_record
   \<and> [''file1.outColor'', ''blinn1.color''] \<in> set (connections cube_record)
   \<and> feeds cube_host ''file1.outColor'' ''blinn1.color''
   \<and> confirm_attr_order cube_host (Some [''blinn1.color'', ''file1.outColor''])
       = Inr [''file1.outColor'', ''blinn1.color'']"
proof -
  have w: "lists_wired_pairs cube_host"
    unfolding cube_host_def by (rule scene_host_lists_wired_pairs)
  have b: "build_shader_dict 5 cube_host ''sg1'' = Inr cube_record"
    by code_simp
  have c: "[''file1.outColor'', ''blinn1.color''] \<in> set (connections cube_record)"
    by (simp add: cube_record_def)
  have fd: "feeds cube_host ''file1.outColor'' ''blinn1.color''"
    by code_simp
  note T = confirm_attr_order_source_first[of cube_host "''blinn1.color''" "''file1.outColor''" "[]"
              5 "''sg1''" cube_record "[''file1.outColor'', ''blinn1.color'']"]
  have "confirm_attr_order cube_host (Some [''blinn1.color'', ''file1.outColor''])
       = Inr [''file1.outColor'', ''blinn1.color'']"
    using T fd by simp
  then show ?thesis using w b c fd by simp
qed

lemma names_asked_plugD:
  assumes "names_asked_plug h" "lc_connections f" "lc_plugs f" "listConnections h f x = Some (a # rest)"
  shows "split_dot_0 a = split_dot_0 x"
  using assms unfolding names_asked_plug_def by blast

text \<open>
  C2, as the code has it.  On a host that answers a question about a plug with that
  plug first, every pair in the \<^verbatim>\<open>"connections"\<close> of a record has a plug whose node-name
  prefix is the shading group, or the prefix of a key of \<^verbatim>\<open>"nodes"\<close> (the key itself
  when it has no dot) or of a transform with an empty list of shapes.  The other plug
  of the pair is the one the host lists as connected, on whatever node that is.
\<close>

theorem connections_have_a_recorded_end:
  assumes "names_asked_plug h"
    and "build_shader_dict depth h shading_engine = Inr d"
    and "c \<in> set (connections d)"
  shows "\<exists>p \<in> set c. split_dot_0 p = shading_engine
           \<or> (\<exists>n. split_dot_0 p = split_dot_0 n \<and> (n \<in> set (dict_keys (nodes d)) \<or> bare_transform h n))"
proof -
  have "engine_pair h shading_engine c \<or> recorded_pair h d c"
    using build_shader_dict_inv[OF assms(2)] assms(3) by blast
  then show ?thesis
  proof
    assume "engine_pair h shading_engine c"
    then obtain each where e: "split_dot_0 each = shading_engine"
      and co: "confirm_attr_order h
          (listConnections h (lc\<lparr>lc_connections := True, lc_plugs := True, lc_source := True\<rparr>) each) = Inr c"
      unfolding engine_pair_def by blast
    obtain a rest where ans: "listConnections h (lc\<lparr>lc_connections := True, lc_plugs := True, lc_source := True\<rparr>) each
                          = Some (a # rest)" and a: "a \<in> set c"
      using confirm_attr_order_Some[OF co] by blast
    have "split_dot_0 a = split_dot_0 each"
      by (rule names_asked_plugD[OF assms(1) _ _ ans]) simp_all
    then show ?thesis using a e by blast
  next
    assume "recorded_pair h d c"
    then obtain n attr where n: "n \<in> fst ` set (nodes d) \<or> bare_transform h n"
      and co: "confirm_attr_order h (incoming h (format_dot n attr)) = Inr c"
      unfolding recorded_pair_def node_pair_def by blast
    obtain a rest where ans: "incoming h (format_dot n attr) = Some (a # rest)" and a: "a \<in> set c"
      using confirm_attr_order_Some[OF co] by blast
    have "split_dot_0 a = split_dot_0 (format_dot n attr)"
      by (rule names_asked_plugD[OF assms(1) _ _ ans[unfolded incoming_def]]) simp_all
    then have "split_dot_0 a = split_dot_0 n"
      by (simp add: split_dot_0_format_dot)
    moreover have "n \<in> set (dict_keys (nodes d)) \<or> bare_transform h n"
      using n by (simp add: dict_keys_def)
    ultimately show ?thesis using a by blast
  qed
qed

theorem connections_have_a_recorded_end_witness:
  "names_asked_plug cube_host
   \<and> build_shader_dict 5 cube_host ''sg1'' = Inr cube_record
   \<and> [''cmGlobals.cmEnabled'', ''file1.cmEnabled''] \<in> set (connections cube_record)
   \<and> list_ex (\<lambda>p. split_dot_0 p \<in> set (''sg1'' # dict_keys (nodes cube_record)))
        [''cmGlobals.cmEnabled'', ''file1.cmEnabled'']"
proof -
  have w: "names_asked_plug cube_host"
    unfolding cube_host_def by (rule scene_host_names_asked_plug)
  have b: "build_shader_dict 5 cube_host ''sg1'' = Inr cube_record"
    by code_simp
  have c: "[''cmGlobals.cmEnabled'', ''file1.cmEnabled''] \<in> set (connections cube_record)"
    by (simp add: cube_record_def)
  have nb: "\<not> bare_transform cube_host n" for n
    by (auto simp: bare_transform_def cube_host_def scene_host_def cube_scene_def split: if_splits)
  obtain p where p: "p \<in> set [''cmGlobals.cmEnabled'', ''file1.cmEnabled'']"
    and pp: "split_dot_0 p = ''sg1''
           \<or> (\<exists>n. split_dot_0 p = split_dot_0 n \<and> (n \<in> set (dict_keys (nodes cube_record)) \<or> bare_transform cube_host n))"
    using connections_have_a_recorded_end[OF w b c] by blast
  have keys: "dict_keys (nodes cube_record) = [''blinn1'', ''file1'']"
    by (simp add: cube_record_def dict_keys_def)
  have "split_dot_0 p \<in> set (''sg1'' # dict_keys (nodes cube_record))"
    using pp nb keys by (auto simp: split_dot_0_def)
  then have "list_ex (\<lambda>p. split_dot_0 p \<in> set (''sg1'' # dict_keys (nodes cube_record)))
        [''cmGlobals.cmEnabled'', ''file1.cmEnabled'']"
    using p unfolding list_ex_iff by blast
  then show ?thesis using w b c by simp
qed

text \<open>
  C2 as stated fails.  In the cube scene the default colour-management node feeds
  the file texture; \<^verbatim>\<open>build_shader_dict\<close> skips default nodes when it fills \<^verbatim>\<open>"nodes"\<close>
  and still records the connection, so the plug \<^verbatim>\<open>cmGlobals.cmEnabled\<close> is in
  \<^verbatim>\<open>"connections"\<close> while \<^verbatim>\<open>cmGlobals\<close> is neither a key of \<^verbatim>\<open>"nodes"\<close> nor the shading
  group nor the base material.
\<close>

theorem connections_name_a_default_node:
  "build_shader_dict 5 cube_host ''sg1'' = Inr cube_record
   \<and> [''cmGlobals.cmEnabled'', ''file1.cmEnabled''] \<in> set (connections cube_record)
   \<and> split_dot_0 ''cmGlobals.cmEnabled'' = ''cmGlobals''
   \<and> ''cmGlobals'' \<notin> set (dict_keys (nodes cube_record))
   \<and> ''cmGlobals'' \<noteq> ''sg1''
   \<and> ''cmGlobals'' \<noteq> bm_name (base_material cube_record)"
  by code_simp

section \<open>export_shaders and import_shaders\<close>

text \<open>
  C6, as the code has it.  In a document written by \<^verbatim>\<open>export_shaders\<close>, the \<^verbatim>\<open>"meshes"\<close> of
  an entry are, for \<^verbatim>\<open>selection_type="mesh"\<close>, the objects that the host selects for the
  base material of the entry (\<^verbatim>\<open>cmds.hyperShade(objects=...)\<close>), the entry being the
  record that \<^verbatim>\<open>build_shader_dict\<close> makes of its key; for
  \<^verbatim>\<open>selection_type="shadingEngine"\<close> they are always the empty list.
\<close>

theorem export_shaders_meshes:
  assumes "export_shaders depth h can_write full_export_path selection_type = (lg, Inr doc)"
    and "(k, v) \<in> set doc"
  shows "(selection_type = ''mesh'' \<longrightarrow>
            build_shader_dict depth h k = Inr v
            \<and> meshes v = hyperShade_objects h (bm_name (base_material v)))
         \<and> (selection_type = ''shadingEngine'' \<longrightarrow> meshes v = [])"
proof -
  have "(selection_type = ''mesh'' \<and> build_shader_dict depth h k = Inr v)
        \<or> (selection_type = ''shadingEngine''
            \<and> (\<exists>d. build_shader_dict depth h k = Inr d \<and> v = d\<lparr>meshes := []\<rparr>))"
    using export_shaders_inv[OF assms(1)] assms(2) by blast
  then show ?thesis
  proof
    assume m: "selection_type = ''mesh'' \<and> build_shader_dict depth h k = Inr v"
    then have "meshes v = hyperShade_objects h (bm_name (base_material v))"
      using build_shader_dict_inv[of depth h k v] by simp
    then show ?thesis using m by simp
  next
    assume "selection_type = ''shadingEngine''
            \<and> (\<exists>d. build_shader_dict depth h k = Inr d \<and> v = d\<lparr>meshes := []\<rparr>)"
    then show ?thesis by auto
  qed
qed

theorem export_shaders_meshes_witness:
  "export_shaders 5 cube_host any_path ''out.json'' ''mesh''
     = ([(INFO, ''Shaders Successfully Exported.'')], Inr cube_document)
   \<and> (''sg1'', cube_record) \<in> set cube_document
   \<and> build_shader_dict 5 cube_host ''sg1'' = Inr cube_record
   \<and> meshes cube_record = hyperShade_objects cube_host ''blinn1''
   \<and> meshes cube_record = [''cubeShape'']"
proof -
  have e: "export_shaders 5 cube_host any_path ''out.json'' ''mesh''
     = ([(INFO, ''Shaders Successfully Exported.'')], Inr cube_document)"
    by code_simp
  have i: "(''sg1'', cube_record) \<in> set cube_document"
    by (simp add: cube_document_def)
  have bm: "bm_name (base_material cube_record) = ''blinn1''"
    by (simp add: cube_record_def)
  have ms: "meshes cube_record = [''cubeShape'']"
    by (simp add: cube_record_def)
  have "build_shader_dict 5 cube_host ''sg1'' = Inr cube_record
        \<and> meshes cube_record = hyperShade_objects cube_host (bm_name (base_material cube_record))"
    using export_shaders_meshes[OF e i] by simp
  then show ?thesis using e i bm ms by simp
qed

text \<open>
  C6 as stated fails for \<^verbatim>\<open>selection_type="shadingEngine"\<close>.  The shading group of the
  cube has the mesh \<^verbatim>\<open>cubeShape\<close> bound to it and \<^verbatim>\<open>build_shader_dict\<close> records it, but
  the branch then assigns \<^verbatim>\<open>shaders_dict[each]["meshes"] = []\<close>: the exported entry has no
  meshes.
\<close>

theorem export_by_shading_group_drops_meshes:
  "export_shaders 5 cube_host_sg any_path ''out.json'' ''shadingEngine''
     = ([(INFO, ''Shaders Successfully Exported.'')], Inr [(''sg1'', cube_record\<lparr>meshes := []\<rparr>)])
   \<and> hyperShade_objects cube_host_sg ''blinn1'' = [''cubeShape'']
   \<and> build_shader_dict 5 cube_host_sg ''sg1'' = Inr cube_record
   \<and> meshes cube_record = [''cubeShape'']"
  by code_simp

text \<open>
  C7, at a selection without a mesh.  With the camera selected and
  \<^verbatim>\<open>selection_type="mesh"\<close>, the filter keeps the shape of the camera, because it only
  asks whether the object has shapes; the shape belongs to no shading group, the
  listing is \<^verbatim>\<open>None\<close>, and \<^verbatim>\<open>None[0]\<close> raises \<^verbatim>\<open>TypeError\<close>.  Nothing is logged and no
  file is written.
\<close>

theorem export_shaders_camera_selected:
  "ls_selection camera_host = [''persp'']
   \<and> listRelatives_shapes camera_host ''persp'' = Some [''perspShape'']
   \<and> showType_last camera_host ''perspShape'' = Inr ''camera''
   \<and> listConnections camera_host (lc\<lparr>lc_type := Some ''shadingEngine'', lc_destination := True\<rparr>) ''perspShape'' = None
   \<and> export_shaders 5 camera_host any_path ''out.json'' ''mesh'' = ([], Inl TypeError)"
  by code_simp

lemma selected_shapes_none:
  assumes "\<forall>each \<in> set selection. \<not> nonempty (listRelatives_shapes h each)"
  shows "selected_shapes h acc selection = acc"
  using assms by (induction selection arbitrary: acc) simp_all

lemma selected_engines_none:
  assumes "\<forall>each \<in> set selection. \<exists>t. showType_last h each = Inr t \<and> t \<noteq> ''shadingEngine''"
  shows "selected_engines h acc selection = Inr acc"
  using assms
proof (induction selection arbitrary: acc)
  case Nil
  show ?case by simp
next
  case (Cons each rest)
  obtain t where "showType_last h each = Inr t" "t \<noteq> ''shadingEngine''"
    using Cons.prems by auto
  then show ?case using Cons by simp
qed

text \<open>
  Where the filters find nothing, the call does what C7 says: with a writable path,
  and either no selected object with shapes (\<^verbatim>\<open>"mesh"\<close>) or no selected shading group
  (\<^verbatim>\<open>"shadingEngine"\<close>), it logs its errors and writes the empty document.  This
  covers the empty selection.
\<close>

lemma export_shaders_nothing_to_export:
  assumes "can_write full_export_path"
    and "selection_type = ''mesh'' \<and> (\<forall>each \<in> set (ls_selection h). \<not> nonempty (listRelatives_shapes h each))
         \<or> selection_type = ''shadingEngine''
            \<and> (\<forall>each \<in> set (ls_selection h). \<exists>t. showType_last h each = Inr t \<and> t \<noteq> ''shadingEngine'')"
  shows "export_shaders depth h can_write full_export_path selection_type =
           ((if ls_selection h = [] then [(ERROR, ''Cannot export because nothing is selected.'')] else [])
            @ [(ERROR, ''No Meshes found in selection''), (INFO, ''Shaders Successfully Exported.'')],
            Inr [])"
  using assms(2)
proof
  assume a: "selection_type = ''mesh'' \<and> (\<forall>each \<in> set (ls_selection h). \<not> nonempty (listRelatives_shapes h each))"
  then have "selected_shapes h [] (ls_selection h) = []"
    using selected_shapes_none by blast
  then show ?thesis using a assms(1) by (simp add: export_shaders_def Let_def)
next
  assume a: "selection_type = ''shadingEngine''
            \<and> (\<forall>each \<in> set (ls_selection h). \<exists>t. showType_last h each = Inr t \<and> t \<noteq> ''shadingEngine'')"
  then have "selected_engines h [] (ls_selection h) = Inr []"
    using selected_engines_none by blast
  then show ?thesis using a assms(1) by (simp add: export_shaders_def Let_def)
qed

text \<open>
  C10.  With \<^verbatim>\<open>shader_conflicts="cancel"\<close> the call reads the file, logs
  \<^verbatim>\<open>Shader IO Import cancelled\<close> and returns.  For every host the scene after the call
  is the scene before it, so no command of the host was run: no node is created,
  deleted or connected and no attribute is set; the shared list of \<^verbatim>\<open>get_src_nodes\<close> is
  untouched as well.  (When the file cannot be read, the exception of reading it ends
  the call before the option is looked at, with the scene unchanged too.)
\<close>

theorem import_shaders_cancel:
  "import_shaders m load_json depth importPath ''cancel'' w =
     (case load_json importPath of
        Inl e \<Rightarrow> (w, Some e)
      | Inr shaders_dict \<Rightarrow> (w\<lparr>logged := logged w @ [(ERROR, ''Shader IO Import cancelled'')]\<rparr>, None))
   \<and> scene_state (fst (import_shaders m load_json depth importPath ''cancel'' w)) = scene_state w
   \<and> default_node_list (fst (import_shaders m load_json depth importPath ''cancel'' w)) = default_node_list w"
  by (simp add: import_shaders_def split: sum.splits)

text \<open>
  C1, at an import into a scene that already has a node \<^verbatim>\<open>file1\<close>.  The document has
  the textures \<^verbatim>\<open>file1\<close> and \<^verbatim>\<open>file2\<close>.  The host names the node for \<^verbatim>\<open>file1\<close>
  \<^verbatim>\<open>file2\<close>, and the plug \<^verbatim>\<open>file1.outColor\<close> is rewritten to \<^verbatim>\<open>file2.outColor\<close>; the host
  then names the node for the document's \<^verbatim>\<open>file2\<close> \<^verbatim>\<open>file3\<close>, and every plug that starts
  with \<^verbatim>\<open>file2.\<close> is rewritten, the one just rewritten included.  When the connections
  are made, both textures' plugs refer to \<^verbatim>\<open>file3\<close>; the node created for \<^verbatim>\<open>file1\<close> is
  connected to nothing.
\<close>

theorem import_shaders_rename_cascade:
  "snd (prepare_network scene_maya ''sg1'' two_textures one_texture_scene)
     = Inr (''sg1'', [[''blinn1.outColor'', ''sg1.surfaceShader''],
                      [''file3.outColor'', ''blinn1.color''],
                      [''file3.outColor'', ''blinn1.specularColor'']])
   \<and> node_types (fst (prepare_network scene_maya ''sg1'' two_textures one_texture_scene))
     = [(''file1'', ''file''), (''blinn1'', ''blinn''), (''sg1'', ''shadingEngine''),
        (''file2'', ''file''), (''file3'', ''file'')]
   \<and> import_shaders scene_maya load_two_textures 5 ''in.json'' ''rename'' fresh_world
     = (\<lparr>scene_state = one_texture_scene
            \<lparr>node_types := [(''file1'', ''file''), (''blinn1'', ''blinn''), (''sg1'', ''shadingEngine''),
                            (''file2'', ''file''), (''file3'', ''file'')],
             wires := [(''blinn1.outColor'', ''sg1.surfaceShader''),
                       (''file3.outColor'', ''blinn1.color''),
                       (''file3.outColor'', ''blinn1.specularColor'')]\<rparr>,
          default_node_list = [],
          logged = [(INFO, ''Shaders successfully imported'')]\<rparr>, None)"
  by code_simp

text \<open>
  The rewriting uses \<^verbatim>\<open>attr.replace(old, new)\<close>, which replaces the old name wherever
  it occurs in the plug, also inside the name of the attribute.
\<close>

lemma rename_plugs_rewrites_attribute_name:
  "rename_plugs False ''bump'' ''bump1'' [[''file1.outAlpha'', ''bump.bumpValue'']]
     = [[''file1.outAlpha'', ''bump1.bump1Value'']]"
  by code_simp

section \<open>The shape of the document\<close>

lemma json_entries_fst: "fst \<circ> (\<lambda>(k, v). (k, g v)) = fst"
  by (rule ext) (simp add: split_beta)

lemma json_entries_keys: "map fst (map (\<lambda>(k, v). (k, g v)) ps) = map fst ps"
  by (simp add: json_entries_fst)

lemma is_node_entry_json:
  assumes "distinct (map fst (Attributes e))"
  shows "is_node_entry (json_of_entry e)"
  using assms by (simp add: is_node_entry_def json_of_entry_def json_entries_fst)

lemma nodes_json_shape:
  assumes "tidy_nodes ns"
  shows "is_object_of is_node_entry (JObj (map (\<lambda>(k, e). (k, json_of_entry e)) ns))"
proof -
  have d: "distinct (map fst (map (\<lambda>(k, e). (k, json_of_entry e)) ns))"
    using assms by (simp add: json_entries_fst tidy_nodes_def)
  have "\<forall>j \<in> set (map snd (map (\<lambda>(k, e). (k, json_of_entry e)) ns)). is_node_entry j"
  proof
    fix j assume "j \<in> set (map snd (map (\<lambda>(k, e). (k, json_of_entry e)) ns))"
    then obtain k e where ke: "(k, e) \<in> set ns" and j: "j = json_of_entry e"
      by auto
    have "distinct (map fst (Attributes e))"
      using assms ke by (auto simp: tidy_nodes_def)
    then show "is_node_entry j" using j is_node_entry_json by simp
  qed
  then show ?thesis using d by (simp add: list_all_iff)
qed

lemma connections_json_shape:
  assumes "\<forall>c \<in> set cs. length c = 2"
  shows "is_array_of is_plug_pair (JArr (map (\<lambda>c. JArr (map JStr c)) cs))"
proof -
  have "is_plug_pair (JArr (map JStr c))" if "c \<in> set cs" for c
  proof -
    have "length c = 2" using assms that by blast
    then obtain a b where "c = [a, b]"
      by (cases c; cases "tl c") auto
    then show ?thesis by simp
  qed
  then show ?thesis by (simp add: list_all_iff)
qed

lemma meshes_json_shape: "is_array_of is_string (JArr (map JStr ms))"
  by (simp add: list_all_iff)

lemma network_json_shape:
  assumes "tidy_nodes (nodes n)" and "\<forall>c \<in> set (connections n). length c = 2"
  shows "is_shader_network (json_of_network n)"
  using nodes_json_shape[OF assms(1)] connections_json_shape[OF assms(2)] meshes_json_shape[of "meshes n"]
  by (simp add: is_shader_network_def json_of_network_def)

lemma build_shader_dict_pairs:
  assumes "build_shader_dict depth h se = Inr d" and "c \<in> set (connections d)"
  shows "length c = 2"
proof -
  have "engine_pair h se c \<or> recorded_pair h d c"
    using build_shader_dict_inv[OF assms(1)] assms(2) by blast
  then obtain r where "confirm_attr_order h r = Inr c"
    unfolding engine_pair_def recorded_pair_def node_pair_def by blast
  then show ?thesis by (rule confirm_attr_order_length)
qed

lemma build_shader_dict_json_shape:
  assumes "build_shader_dict depth h se = Inr d"
  shows "is_shader_network (json_of_network d)" and "is_shader_network (json_of_network (d\<lparr>meshes := []\<rparr>))"
proof -
  have t: "tidy_nodes (nodes d)"
    using build_shader_dict_inv[OF assms] by simp
  have p: "\<forall>c \<in> set (connections d). length c = 2"
    using build_shader_dict_pairs[OF assms] by blast
  show "is_shader_network (json_of_network d)"
    using network_json_shape[OF t p] .
  show "is_shader_network (json_of_network (d\<lparr>meshes := []\<rparr>))"
    using network_json_shape[of "d\<lparr>meshes := []\<rparr>"] t p by simp
qed

text \<open>
  C4.  The document that \<^verbatim>\<open>export_shaders\<close> hands to \<^verbatim>\<open>json.dump\<close> is a JSON object with
  one member per shading group and no member twice; each member has exactly the
  ShaderNetwork shape (\<open>is_shader_network\<close>), and it is the record that
  \<^verbatim>\<open>build_shader_dict\<close> makes of the shading group that is its key, with the meshes
  emptied in the \<^verbatim>\<open>"shadingEngine"\<close> branch.
\<close>

theorem export_shaders_document_shape:
  assumes "export_shaders depth h can_write full_export_path selection_type = (lg, Inr doc)"
  shows "is_shader_document (json_of_document doc)
         \<and> (\<forall>(k, v) \<in> set doc.
               \<exists>d. build_shader_dict depth h k = Inr d \<and> (v = d \<or> v = d\<lparr>meshes := []\<rparr>))"
proof -
  note I = export_shaders_inv[OF assms]
  have built: "\<exists>d. build_shader_dict depth h k = Inr d \<and> (v = d \<or> v = d\<lparr>meshes := []\<rparr>)"
    if "(k, v) \<in> set doc" for k v
    using I that by blast
  have d: "distinct (map fst (map (\<lambda>(k, n). (k, json_of_network n)) doc))"
    using I by (simp add: json_entries_fst)
  have "\<forall>j \<in> set (map snd (map (\<lambda>(k, n). (k, json_of_network n)) doc)). is_shader_network j"
  proof
    fix j assume "j \<in> set (map snd (map (\<lambda>(k, n). (k, json_of_network n)) doc))"
    then obtain k v where kv: "(k, v) \<in> set doc" and j: "j = json_of_network v"
      by auto
    obtain r where "build_shader_dict depth h k = Inr r" and "v = r \<or> v = r\<lparr>meshes := []\<rparr>"
      using built[OF kv] by blast
    then show "is_shader_network j"
      using j build_shader_dict_json_shape by blast
  qed
  then have "is_shader_document (json_of_document doc)"
    using d by (simp add: is_shader_document_def json_of_document_def list_all_iff)
  then show ?thesis using built by blast
qed

theorem export_shaders_document_shape_witness:
  "export_shaders 5 cube_host any_path ''out.json'' ''mesh''
     = ([(INFO, ''Shaders Successfully Exported.'')], Inr cube_document)
   \<and> is_shader_document (json_of_document cube_document)
   \<and> json_member (json_member (json_member (json_of_document cube_document) ''sg1'') ''base_material'') ''name''
       = JStr ''blinn1''"
proof -
  have e: "export_shaders 5 cube_host any_path ''out.json'' ''mesh''
     = ([(INFO, ''Shaders Successfully Exported.'')], Inr cube_document)"
    by code_simp
  have "is_shader_document (json_of_document cube_document)"
    using export_shaders_document_shape[OF e] by blast
  moreover have "json_member (json_member (json_member (json_of_document cube_document) ''sg1'') ''base_material'') ''name''
       = JStr ''blinn1''"
    by code_simp
  ultimately show ?thesis using e by blast
qed

end
